theory Spec2Isabelle
  imports Complex_Main "HOL-Library.Multiset"
begin


section \<open>The multi-GPU fan-out harness of \<^verbatim>\<open>test-multi-gpu.py\<close>\<close>

text \<open>
  The script starts three worker processes, one per GPU, each running
  \<^verbatim>\<open>run_model_on_gpu\<close>; it joins them, drains the shared
  \<^verbatim>\<open>multiprocessing.Queue\<close> and walks over the collected entries sorted by
  \<^verbatim>\<open>gpu_id\<close>.  What lies outside the script is a parameter of the model: the vLLM
  library (\<^verbatim>\<open>LLM\<close>, \<^verbatim>\<open>generate\<close>), which may return or raise anything; the
  standard output of a worker, on which a \<^verbatim>\<open>print\<close> may raise; and the pipe of
  the queue, which holds a bounded number of bytes.  What the prints write is left out,
  and so are the prints of the parent; the sequence the final display loop walks over
  is the value of the harness.
\<close>

subsection \<open>Python values\<close>

text \<open>
  A raised Python exception.  \<^verbatim>\<open>except Exception\<close> catches the instances of
  \<^verbatim>\<open>Exception\<close> (every error).  \<^verbatim>\<open>SystemExit\<close>, with its code (none, an
  integer or another object), and \<^verbatim>\<open>KeyboardInterrupt\<close> and \<^verbatim>\<open>GeneratorExit\<close>
  derive from \<^verbatim>\<open>BaseException\<close> only and pass through such a handler.
\<close>

datatype sys_code = NoCode | IntCode int | ObjCode string

datatype py_exc = PyException string | PySystemExit sys_code | PyBaseOnly string

text \<open>\<^verbatim>\<open>str(n)\<close> of a non-negative integer: its decimal digits.\<close>

fun str :: "nat \<Rightarrow> string" where
  "str n = (if n < 10 then [''0123456789'' ! n]
            else str (n div 10) @ [''0123456789'' ! (n mod 10)])"

declare str.simps [simp del]

text \<open>
  \<^verbatim>\<open>s.strip()\<close>: leading and trailing whitespace removed.  The characters
  below are the ones of the 8-bit range for which Python's \<^verbatim>\<open>str.isspace\<close> holds.
\<close>

definition whitespace :: "char list" where
  "whitespace = [CHR 0x09, CHR 0x0A, CHR 0x0B, CHR 0x0C, CHR 0x0D, CHR 0x1C, CHR 0x1D,
                 CHR 0x1E, CHR 0x1F, CHR 0x20, CHR 0x85, CHR 0xA0]"

definition isspace :: "char \<Rightarrow> bool" where
  "isspace c = (c \<in> set whitespace)"

definition strip :: "string \<Rightarrow> string" where
  "strip s = rev (dropWhile isspace (rev (dropWhile isspace s)))"

subsection \<open>What lies outside the script, as a parameter\<close>

text \<open>The keyword arguments of \<^verbatim>\<open>LLM(...)\<close> and \<^verbatim>\<open>SamplingParams(...)\<close>.\<close>

record llm_args =
  model :: string
  tensor_parallel_size :: nat
  trust_remote_code :: bool
  max_model_len :: nat
  gpu_memory_utilization :: real

record sampling_params =
  temperature :: real
  top_p :: real
  max_tokens :: nat

text \<open>
  What \<^verbatim>\<open>generate\<close> returns: a list of request outputs, each with a list
  \<^verbatim>\<open>outputs\<close> of completions, each with its \<^verbatim>\<open>text\<close>.
\<close>

datatype completion_output = CompletionOutput (c_text: string)

datatype request_output = RequestOutput (outputs: "completion_output list")

type_synonym environ = "string \<rightharpoonup> string"

text \<open>An entry of a worker's result list: the dict with keys gpu_id, prompt, response.\<close>

record result =
  gpu_id :: nat
  prompt :: string
  response :: string

datatype pid = Parent | Child nat

text \<open>
  The platform.  Constructing an engine reads the environment of the calling process
  (that is how \<^verbatim>\<open>CUDA_VISIBLE_DEVICES\<close> takes effect) and returns an engine or
  raises; generating returns request outputs or raises.  \<open>print_raises p line\<close> is the
  exception that \<^verbatim>\<open>print(line)\<close> raises in process \<open>p\<close>, if it raises (a closed or
  broken standard output, an encoding error).  \<open>nbytes b\<close> is the number of bytes the
  pickled batch \<open>b\<close> takes in the pipe of the queue, and \<open>pipe_size\<close> the number of
  bytes the pipe holds.
\<close>

record 'llm platform =
  LLM :: "environ \<Rightarrow> llm_args \<Rightarrow> py_exc + 'llm"
  generate :: "'llm \<Rightarrow> string list \<Rightarrow> sampling_params \<Rightarrow> py_exc + request_output list"
  print_raises :: "pid \<Rightarrow> string \<Rightarrow> py_exc option"
  nbytes :: "result list \<Rightarrow> nat"
  pipe_size :: nat

text \<open>The two argument records the worker builds.\<close>

definition llm_kwargs :: "string \<Rightarrow> llm_args" where
  "llm_kwargs model_name =
     \<lparr>model = model_name, tensor_parallel_size = 1, trust_remote_code = True,
      max_model_len = 4096, gpu_memory_utilization = 0.85\<rparr>"

definition sampling :: sampling_params where
  "sampling = \<lparr>temperature = 0.1, top_p = 0.9, max_tokens = 200\<rparr>"

subsection \<open>Processes, the shared queue and the trace\<close>

datatype event =
    EvSetEnv string string
  | EvLLM
  | EvGenerate
  | EvPut "result list"
  | EvStart nat
  | EvJoin nat "nat option"
  | EvEmpty bool
  | EvGet

text \<open>
  A child is running, has exited with a code, or is blocked for good: it has ended its
  target and cannot exit, because what it put is not yet written to the pipe.
\<close>

datatype proc_status = Unstarted | Running | Blocked | Exited nat

text \<open>
  The state of the run.  Every process has its own \<^verbatim>\<open>os.environ\<close> (a child starts
  with a copy of its parent's).  \<^verbatim>\<open>results_queue.put\<close> appends to a buffer of the
  calling process (\<open>unflushed\<close>); the feeder thread of that process writes the buffer to
  the pipe, and \<open>results_queue\<close> holds the batches written to the pipe, in order, which
  are the ones the parent can read.  \<open>wedged\<close>: a writer is stopped in the middle of a
  batch that did not fit, holding the write lock on a full pipe.  \<open>hung\<close>: the parent
  is waiting in a join that cannot return.  \<open>trace\<close>: the operations performed so far,
  each with the process that performed it.
\<close>

record world =
  os_environ :: "pid \<Rightarrow> environ"
  status :: "nat \<Rightarrow> proc_status"
  unflushed :: "pid \<Rightarrow> result list list"
  results_queue :: "result list list"
  wedged :: bool
  hung :: bool
  trace :: "(pid \<times> event) list"

definition record_event :: "pid \<Rightarrow> event \<Rightarrow> world \<Rightarrow> world" where
  "record_event p e w = w\<lparr>trace := trace w @ [(p, e)]\<rparr>"

text \<open>\<^verbatim>\<open>os.environ[k] = v\<close> in process \<open>p\<close>.\<close>

definition setenv :: "pid \<Rightarrow> string \<Rightarrow> string \<Rightarrow> world \<Rightarrow> world" where
  "setenv p k v w =
     record_event p (EvSetEnv k v) (w\<lparr>os_environ := (os_environ w)(p := (os_environ w p)(k \<mapsto> v))\<rparr>)"

text \<open>\<^verbatim>\<open>results_queue.put(item)\<close> in process \<open>p\<close>: the queue is unbounded, so the
  call returns at once, with the item in the buffer of \<open>p\<close>.\<close>

definition put :: "pid \<Rightarrow> result list \<Rightarrow> world \<Rightarrow> world" where
  "put p item w =
     record_event p (EvPut item) (w\<lparr>unflushed := (unflushed w)(p := unflushed w p @ [item])\<rparr>)"

text \<open>The bytes that batches take in the pipe.\<close>

definition pipe_bytes :: "'llm platform \<Rightarrow> result list list \<Rightarrow> nat" where
  "pipe_bytes pf q = sum_list (map (nbytes pf) q)"

text \<open>
  The feeder thread writing a buffer to the pipe, batch by batch, while nobody reads: a
  batch that fits is written; the first batch that does not fit fills the pipe and
  stops the writer for good, and so does a pipe on which another writer is stopped.
  The value is the batches left unwritten and the new state.
\<close>

fun flush_buffer :: "'llm platform \<Rightarrow> result list list \<Rightarrow> world \<Rightarrow> result list list \<times> world" where
  "flush_buffer pf [] w = ([], w)"
| "flush_buffer pf (b # bs) w =
     (if wedged w then (b # bs, w)
      else if pipe_bytes pf (results_queue w) + nbytes pf b \<le> pipe_size pf
           then flush_buffer pf bs (w\<lparr>results_queue := results_queue w @ [b]\<rparr>)
           else (b # bs, w\<lparr>wedged := True\<rparr>))"

definition flush :: "'llm platform \<Rightarrow> pid \<Rightarrow> world \<Rightarrow> world" where
  "flush pf p w =
     (case flush_buffer pf (unflushed w p) w of
        (rest, w') \<Rightarrow> w'\<lparr>unflushed := (unflushed w')(p := rest)\<rparr>)"

subsection \<open>The worker: \<^verbatim>\<open>run_model_on_gpu\<close>\<close>

text \<open>The three lines the worker prints (lines 15, 44 and 47 of the script).\<close>

definition loading_line :: "nat \<Rightarrow> string \<Rightarrow> string" where
  "loading_line g m = ''GPU '' @ str g @ '': Loading '' @ m @ ''...''"

definition completed_line :: "nat \<Rightarrow> string" where
  "completed_line g = ''GPU '' @ str g @ '': Completed processing''"

definition error_line :: "nat \<Rightarrow> string \<Rightarrow> string" where
  "error_line g msg = ''GPU '' @ str g @ '': Error - '' @ msg"

text \<open>
  The loop \<^verbatim>\<open>for i, output in enumerate(outputs): results.append({...})\<close>.
  \<^verbatim>\<open>prompts[i]\<close> and \<^verbatim>\<open>output.outputs[0]\<close> raise IndexError out of range.
\<close>

fun collect_outputs ::
  "nat \<Rightarrow> string list \<Rightarrow> nat \<Rightarrow> request_output list \<Rightarrow> result list \<Rightarrow> py_exc + result list"
where
  "collect_outputs g prompts i [] results = Inr results"
| "collect_outputs g prompts i (output # rest) results =
     (if i < length prompts then
        (case outputs output of
           [] \<Rightarrow> Inl (PyException ''IndexError: list index out of range'')
         | c # _ \<Rightarrow>
             collect_outputs g prompts (Suc i) rest
               (results @ [\<lparr>gpu_id = g, prompt = prompts ! i, response = strip (c_text c)\<rparr>]))
      else Inl (PyException ''IndexError: list index out of range''))"

text \<open>
  The body of the \<^verbatim>\<open>try\<close> block, run by process \<open>p\<close>: the state it reaches, or the
  exception raised together with the state at that point.  The print of the completion
  line comes after the put and may raise as well.
\<close>

definition try_body ::
  "'llm platform \<Rightarrow> pid \<Rightarrow> nat \<Rightarrow> string \<Rightarrow> string list \<Rightarrow> world \<Rightarrow> (py_exc \<times> world) + world"
where
  "try_body pf p g model_name prompts w =
     (let w1 = record_event p EvLLM w in
      case LLM pf (os_environ w1 p) (llm_kwargs model_name) of
        Inl e \<Rightarrow> Inl (e, w1)
      | Inr llm \<Rightarrow>
          (let sampling_params = sampling;
               w2 = record_event p EvGenerate w1 in
           case generate pf llm prompts sampling_params of
             Inl e \<Rightarrow> Inl (e, w2)
           | Inr outs \<Rightarrow>
               (case collect_outputs g prompts 0 outs [] of
                  Inl e \<Rightarrow> Inl (e, w2)
                | Inr results \<Rightarrow>
                    (let w3 = put p results w2 in
                     case print_raises pf p (completed_line g) of
                       Some e \<Rightarrow> Inl (e, w3)
                     | None \<Rightarrow> Inr w3))))"

text \<open>How a call ends: it returns, or an exception leaves it.\<close>

datatype outcome = Returned | Raised py_exc

text \<open>
  \<^verbatim>\<open>run_model_on_gpu(gpu_id, model_name, prompts, results_queue)\<close> run by
  process \<open>p\<close>: the environment variable first, then the print of the loading line
  (outside the \<^verbatim>\<open>try\<close>: what it raises leaves the function), then the \<^verbatim>\<open>try\<close>
  block, and the handler \<^verbatim>\<open>except Exception as e\<close>, which prints the error line
  and then puts the empty list; what that print raises leaves the function before the
  put.
\<close>

definition run_model_on_gpu ::
  "'llm platform \<Rightarrow> pid \<Rightarrow> nat \<Rightarrow> string \<Rightarrow> string list \<Rightarrow> world \<Rightarrow> outcome \<times> world"
where
  "run_model_on_gpu pf p g model_name prompts w =
     (let w1 = setenv p ''CUDA_VISIBLE_DEVICES'' (str g) w in
      case print_raises pf p (loading_line g model_name) of
        Some e \<Rightarrow> (Raised e, w1)
      | None \<Rightarrow>
          (case try_body pf p g model_name prompts w1 of
             Inr w' \<Rightarrow> (Returned, w')
           | Inl (PyException msg, w') \<Rightarrow>
               (case print_raises pf p (error_line g msg) of
                  Some e' \<Rightarrow> (Raised e', w')
                | None \<Rightarrow> (Returned, put p [] w'))
           | Inl (PySystemExit c, w') \<Rightarrow> (Raised (PySystemExit c), w')
           | Inl (PyBaseOnly s, w') \<Rightarrow> (Raised (PyBaseOnly s), w')))"

subsection \<open>The harness: \<^verbatim>\<open>test_multi_gpu\<close>\<close>

definition model_name :: string where
  "model_name = ''Qwen/Qwen2.5-7B-Instruct''"

definition gpu_prompts :: "string list list" where
  "gpu_prompts =
     [[''Current date context: Today is August 16, 2025. Question: What year is it currently?'',
       ''Current date context: Today is August 16, 2025. Question: What month and year is it currently?''],
      [''Current date context: Today is August 16, 2025. Academic year context: Fall 2024 semester ended in December 2024, Spring 2025 semester ended in May 2025. Question: If I ask about courses from 'last year', which academic year should that refer to?'',
       ''Current date context: Today is August 16, 2025. Question: If I'm starting Fall 2025 semester soon, what was the previous academic year?''],
      [''Current date context: Today is August 16, 2025. I'm a student. Question: If I want to look at my course load from last academic year, what time period should I examine?'',
       ''Current date context: Today is August 16, 2025. Question: Calculate how many months ago the Spring 2025 semester ended if it ended in May 2025.'']]"

text \<open>
  A \<^verbatim>\<open>Process\<close> object is the arguments of its target: gpu_id, model_name and
  prompts (the queue is the one of the state).  The child it stands for is numbered by
  its position in \<^verbatim>\<open>processes\<close>.
\<close>

type_synonym process = "nat \<times> string \<times> string list"

text \<open>
  \<^verbatim>\<open>process.start()\<close> for child \<open>i\<close>: the child gets a copy of the parent's
  environment, its buffer of the queue is empty, and it is running.
\<close>

definition start :: "nat \<Rightarrow> world \<Rightarrow> world" where
  "start i w =
     record_event Parent (EvStart i)
       (w\<lparr>os_environ := (os_environ w)(Child i := os_environ w Parent),
          status := (status w)(i := Running),
          unflushed := (unflushed w)(Child i := [])\<rparr>)"

text \<open>
  The loop \<^verbatim>\<open>for gpu_id in range(3)\<close> over the remaining ids.  The ids are
  0, 1, 2 and \<^verbatim>\<open>gpu_prompts\<close> has three entries, so \<^verbatim>\<open>gpu_prompts[gpu_id]\<close>
  is in range.
\<close>

fun spawn_loop :: "nat list \<Rightarrow> process list \<Rightarrow> world \<Rightarrow> process list \<times> world" where
  "spawn_loop [] processes w = (processes, w)"
| "spawn_loop (g # gs) processes w =
     (let process = (g, model_name, gpu_prompts ! g) in
      spawn_loop gs (processes @ [process]) (start (length processes) w))"

text \<open>
  The exit code of a child, as the parent sees it (\<^verbatim>\<open>Process._bootstrap\<close>): 0 when
  the target returns; for \<^verbatim>\<open>SystemExit\<close> 0 without a code, the low eight bits of
  an integer code, 1 for any other code; 1 for every other exception.
\<close>

fun exitcode :: "outcome \<Rightarrow> nat" where
  "exitcode Returned = 0"
| "exitcode (Raised (PySystemExit NoCode)) = 0"
| "exitcode (Raised (PySystemExit (IntCode n))) = nat (n mod 256)"
| "exitcode (Raised (PySystemExit (ObjCode s))) = 1"
| "exitcode (Raised e) = 1"

text \<open>
  Child \<open>i\<close> runs its target to the end, if it is running.  However the target ends,
  the process exits only once its buffer of the queue is written to the pipe; when the
  buffer cannot be written, the child stays blocked, since the parent reads nothing
  before it has joined every child.
\<close>

definition run_child :: "'llm platform \<Rightarrow> process list \<Rightarrow> nat \<Rightarrow> world \<Rightarrow> world" where
  "run_child pf processes i w =
     (if i < length processes \<and> status w i = Running then
        (case processes ! i of
           (g, m, prompts) \<Rightarrow>
             (case run_model_on_gpu pf (Child i) g m prompts w of
                (out, w') \<Rightarrow>
                  (let w'' = flush pf (Child i) w' in
                   w''\<lparr>status := (status w'')
                         (i := if unflushed w'' (Child i) = [] then Exited (exitcode out)
                               else Blocked)\<rparr>)))
      else w)"

text \<open>
  The children run in parallel and share only the queue.  A schedule lists children in
  the order in which they end (and write to the pipe) while the parent is between its
  two loops; an entry that names no running child does nothing.
\<close>

fun run_children :: "'llm platform \<Rightarrow> process list \<Rightarrow> nat list \<Rightarrow> world \<Rightarrow> world" where
  "run_children pf processes [] w = w"
| "run_children pf processes (i # sched) w =
     run_children pf processes sched (run_child pf processes i w)"

text \<open>
  \<^verbatim>\<open>process.join()\<close>, without a timeout, at the place of child \<open>i\<close> in the join
  loop.  A child still running ends first (it runs whatever the parent does).  The
  parent, unless it already hangs in an earlier join, returns from the join when the
  child has exited, and hangs in it for good when the child is blocked.  (Every
  process of the list has been started, so no join is of a process not started.)
\<close>

definition join :: "'llm platform \<Rightarrow> process list \<Rightarrow> nat \<Rightarrow> world \<Rightarrow> world" where
  "join pf processes i w =
     (let w' = run_child pf processes i w in
      if hung w' then w'
      else (case status w' i of
              Exited c \<Rightarrow> record_event Parent (EvJoin i None) w'
            | _ \<Rightarrow> w'\<lparr>hung := True\<rparr>))"

fun join_loop :: "'llm platform \<Rightarrow> process list \<Rightarrow> nat list \<Rightarrow> world \<Rightarrow> world" where
  "join_loop pf processes [] w = w"
| "join_loop pf processes (i # rest) w = join_loop pf processes rest (join pf processes i w)"

text \<open>
  The loop \<^verbatim>\<open>while not results_queue.empty(): all_results.extend(results_queue.get())\<close>.
\<close>

function drain_loop :: "result list \<Rightarrow> world \<Rightarrow> result list \<times> world" where
  "drain_loop all_results w =
     (case results_queue w of
        [] \<Rightarrow> (all_results, record_event Parent (EvEmpty True) w)
      | gpu_results # q \<Rightarrow>
          drain_loop (all_results @ gpu_results)
            (record_event Parent EvGet
               (record_event Parent (EvEmpty False) w)\<lparr>results_queue := q\<rparr>))"
  by pat_completeness auto
termination
  by (relation "measure (\<lambda>(a, w). length (results_queue w))") (auto simp: record_event_def)

declare drain_loop.simps [simp del]

text \<open>
  The state when the join loop has ended or the parent hangs in it: a fresh queue, the
  three processes started, the children ending as the schedule says, the joins.
\<close>

definition joined :: "'llm platform \<Rightarrow> nat list \<Rightarrow> world \<Rightarrow> world" where
  "joined pf sched w =
     (case spawn_loop [0..<3] []
             (w\<lparr>results_queue := [], unflushed := (\<lambda>p. []), wedged := False, hung := False\<rparr>) of
        (processes, w1) \<Rightarrow>
          join_loop pf processes [0..<length processes]
            (run_children pf processes sched w1))"

text \<open>
  \<^verbatim>\<open>test_multi_gpu()\<close> under a schedule.  When the parent hangs in a join the
  function never returns: the value is \<open>None\<close>.  Otherwise it is the entries in the
  order the display loop walks over them,
  \<^verbatim>\<open>sorted(all_results, key=lambda x: x['gpu_id'])\<close> (Python's sort is stable, as
  \<open>sort_key\<close> is), and the final state.
\<close>

definition test_multi_gpu ::
  "'llm platform \<Rightarrow> nat list \<Rightarrow> world \<Rightarrow> (result list \<times> world) option"
where
  "test_multi_gpu pf sched w =
     (if hung (joined pf sched w) then None
      else (case drain_loop [] (joined pf sched w) of
              (all_results, w') \<Rightarrow> Some (sort_key gpu_id all_results, w')))"

subsection \<open>Views of a run used in the statements\<close>

text \<open>
  What the engine construction, the generation and the loop of the \<^verbatim>\<open>try\<close> block
  compute in an environment, without the state: the exception raised by
  \<^verbatim>\<open>LLM(...)\<close>, by \<^verbatim>\<open>generate\<close> or by the loop, or the list \<^verbatim>\<open>results\<close>.
\<close>

definition computation ::
  "'llm platform \<Rightarrow> environ \<Rightarrow> nat \<Rightarrow> string \<Rightarrow> string list \<Rightarrow> py_exc + result list"
where
  "computation pf env g m prompts =
     (case LLM pf env (llm_kwargs m) of
        Inl e \<Rightarrow> Inl e
      | Inr llm \<Rightarrow>
          (case generate pf llm prompts sampling of
             Inl e \<Rightarrow> Inl e
           | Inr outs \<Rightarrow> collect_outputs g prompts 0 outs []))"

text \<open>The environment of a worker once it has set its variable.\<close>

definition worker_env :: "environ \<Rightarrow> nat \<Rightarrow> environ" where
  "worker_env env g = env(''CUDA_VISIBLE_DEVICES'' \<mapsto> str g)"

text \<open>
  How the worker ends once the exception \<open>e\<close> has left the \<^verbatim>\<open>try\<close> block, and
  what it still puts: the handler catches an \<^verbatim>\<open>Exception\<close>, prints the error line
  and puts the empty list, unless that print raises; any other exception leaves the
  function.
\<close>

definition handler_run :: "'llm platform \<Rightarrow> pid \<Rightarrow> nat \<Rightarrow> py_exc \<Rightarrow> outcome \<times> result list list" where
  "handler_run pf p g e =
     (case e of
        PyException msg \<Rightarrow>
          (case print_raises pf p (error_line g msg) of
             Some e' \<Rightarrow> (Raised e', [])
           | None \<Rightarrow> (Returned, [[]]))
      | PySystemExit c \<Rightarrow> (Raised e, [])
      | PyBaseOnly s \<Rightarrow> (Raised e, []))"

text \<open>
  How a whole worker run ends and the batches it puts, in order, without the state.
\<close>

definition worker_run ::
  "'llm platform \<Rightarrow> pid \<Rightarrow> environ \<Rightarrow> nat \<Rightarrow> string \<Rightarrow> string list \<Rightarrow> outcome \<times> result list list"
where
  "worker_run pf p env g m prompts =
     (case print_raises pf p (loading_line g m) of
        Some e \<Rightarrow> (Raised e, [])
      | None \<Rightarrow>
          (case computation pf env g m prompts of
             Inl e \<Rightarrow> handler_run pf p g e
           | Inr results \<Rightarrow>
               (case print_raises pf p (completed_line g) of
                  None \<Rightarrow> (Returned, [results])
                | Some e \<Rightarrow> (fst (handler_run pf p g e), results # snd (handler_run pf p g e)))))"

text \<open>The operations of a whole worker run, in order.\<close>

definition worker_events ::
  "'llm platform \<Rightarrow> pid \<Rightarrow> environ \<Rightarrow> nat \<Rightarrow> string \<Rightarrow> string list \<Rightarrow> event list"
where
  "worker_events pf p env g m prompts =
     EvSetEnv ''CUDA_VISIBLE_DEVICES'' (str g) #
     (case print_raises pf p (loading_line g m) of
        Some e \<Rightarrow> []
      | None \<Rightarrow>
          EvLLM #
          (case LLM pf env (llm_kwargs m) of Inl e \<Rightarrow> [] | Inr llm \<Rightarrow> [EvGenerate]) @
          map EvPut (snd (worker_run pf p env g m prompts)))"

text \<open>The operations of one process in a trace.\<close>

definition events_of :: "pid \<Rightarrow> (pid \<times> event) list \<Rightarrow> event list" where
  "events_of p tr = map snd (filter (\<lambda>x. fst x = p) tr)"

fun is_setenv :: "event \<Rightarrow> bool" where
  "is_setenv (EvSetEnv k v) = True"
| "is_setenv e = False"

fun is_put :: "event \<Rightarrow> bool" where
  "is_put (EvPut item) = True"
| "is_put e = False"

subsection \<open>Views of the harness used in the statements\<close>

text \<open>
  Child \<open>i\<close> of the harness when the parent's environment is \<open>penv\<close>: how its
  target ends and the batches it puts, the entries it contributes, and the bytes that
  the batches of the three children take together; the list \<^verbatim>\<open>processes\<close> after
  the spawn loop.
\<close>

definition child_run :: "'llm platform \<Rightarrow> environ \<Rightarrow> nat \<Rightarrow> outcome \<times> result list list" where
  "child_run pf penv i =
     worker_run pf (Child i) (worker_env penv i) i model_name (gpu_prompts ! i)"

definition child_outcome :: "'llm platform \<Rightarrow> environ \<Rightarrow> nat \<Rightarrow> outcome" where
  "child_outcome pf penv i = fst (child_run pf penv i)"

definition child_puts :: "'llm platform \<Rightarrow> environ \<Rightarrow> nat \<Rightarrow> result list list" where
  "child_puts pf penv i = snd (child_run pf penv i)"

definition child_entries :: "'llm platform \<Rightarrow> environ \<Rightarrow> nat \<Rightarrow> result list" where
  "child_entries pf penv i = concat (child_puts pf penv i)"

definition total_bytes :: "'llm platform \<Rightarrow> environ \<Rightarrow> nat" where
  "total_bytes pf penv = sum_list (map (\<lambda>i. pipe_bytes pf (child_puts pf penv i)) [0..<3])"

definition the_processes :: "process list" where
  "the_processes = map (\<lambda>g. (g, model_name, gpu_prompts ! g)) [0..<3]"

text \<open>
  The invariant of a run.  The children in \<open>ds\<close> have ended their targets, in that
  order; each of them has exited if its buffer is written and is blocked otherwise, and
  the pipe holds what they have written, which fits; the other children are running
  with the parent's environment and an empty buffer.
\<close>

definition run_inv :: "'llm platform \<Rightarrow> environ \<Rightarrow> nat list \<Rightarrow> world \<Rightarrow> bool" where
  "run_inv pf penv ds w \<longleftrightarrow>
     distinct ds \<and> set ds \<subseteq> {0..<3} \<and> os_environ w Parent = penv \<and>
     pipe_bytes pf (results_queue w) \<le> pipe_size pf \<and>
     (\<forall>i<3. if i \<in> set ds
            then status w i = (if unflushed w (Child i) = []
                               then Exited (exitcode (child_outcome pf penv i)) else Blocked) \<and>
                 os_environ w (Child i) = worker_env penv i
            else status w i = Running \<and> os_environ w (Child i) = penv \<and>
                 unflushed w (Child i) = []) \<and>
     (\<exists>wr. results_queue w = concat (map wr ds) \<and>
           (\<forall>i\<in>set ds. child_puts pf penv i = wr i @ unflushed w (Child i)))"

text \<open>The invariant of a run in which everything fits: nobody is stopped.\<close>

definition fit_inv :: "'llm platform \<Rightarrow> environ \<Rightarrow> nat list \<Rightarrow> world \<Rightarrow> bool" where
  "fit_inv pf penv ds w \<longleftrightarrow>
     run_inv pf penv ds w \<and> \<not> wedged w \<and> \<not> hung w \<and>
     (\<forall>i\<in>set ds. unflushed w (Child i) = [])"

subsection \<open>Inputs for the examples\<close>

definition init_world :: world where
  "init_world =
     \<lparr>os_environ = (\<lambda>p. Map.empty), status = (\<lambda>i. Unstarted), unflushed = (\<lambda>p. []),
      results_queue = [], wedged = False, hung = False, trace = []\<rparr>"

text \<open>
  The platforms of the examples print without error (but for the one with a broken standard output), count one byte
  for a batch and one more for each of its entries, and have a pipe of \<open>cap\<close> bytes.
\<close>

definition echo_outputs :: "string list \<Rightarrow> request_output list" where
  "echo_outputs prompts = map (\<lambda>q. RequestOutput [CompletionOutput (''echo:'' @ q)]) prompts"

text \<open>A library that answers every prompt with \<^verbatim>\<open>"echo:" + prompt\<close>.\<close>

definition echo_pf :: "nat \<Rightarrow> unit platform" where
  "echo_pf cap =
     \<lparr>LLM = (\<lambda>env kw. Inr ()), generate = (\<lambda>llm prompts sp. Inr (echo_outputs prompts)),
      print_raises = (\<lambda>p line. None), nbytes = (\<lambda>b. 1 + length b), pipe_size = cap\<rparr>"

text \<open>A library whose engine construction always fails.\<close>

definition failing_pf :: "nat \<Rightarrow> unit platform" where
  "failing_pf cap =
     \<lparr>LLM = (\<lambda>env kw. Inl (PyException ''CUDA out of memory'')),
      generate = (\<lambda>llm prompts sp. Inr []),
      print_raises = (\<lambda>p line. None), nbytes = (\<lambda>b. 1 + length b), pipe_size = cap\<rparr>"


text \<open>The echo library, except that engine construction fails on the GPU \<open>k\<close>.\<close>

definition flaky_pf :: "nat \<Rightarrow> nat \<Rightarrow> unit platform" where
  "flaky_pf k cap =
     \<lparr>LLM = (\<lambda>env kw. if env ''CUDA_VISIBLE_DEVICES'' = Some (str k)
                       then Inl (PyException ''CUDA out of memory'') else Inr ()),
      generate = (\<lambda>llm prompts sp. Inr (echo_outputs prompts)),
      print_raises = (\<lambda>p line. None), nbytes = (\<lambda>b. 1 + length b), pipe_size = cap\<rparr>"

text \<open>The echo library, except that engine construction ends in \<^verbatim>\<open>sys.exit()\<close> on
  the GPU \<open>k\<close>.\<close>

definition sysexit_pf :: "nat \<Rightarrow> nat \<Rightarrow> unit platform" where
  "sysexit_pf k cap =
     \<lparr>LLM = (\<lambda>env kw. if env ''CUDA_VISIBLE_DEVICES'' = Some (str k)
                       then Inl (PySystemExit NoCode) else Inr ()),
      generate = (\<lambda>llm prompts sp. Inr (echo_outputs prompts)),
      print_raises = (\<lambda>p line. None), nbytes = (\<lambda>b. 1 + length b), pipe_size = cap\<rparr>"

text \<open>A failing library on a standard output that breaks after the loading line.\<close>

definition broken_stdout_pf :: "unit platform" where
  "broken_stdout_pf =
     \<lparr>LLM = (\<lambda>env kw. Inl (PyException ''CUDA out of memory'')),
      generate = (\<lambda>llm prompts sp. Inr []),
      print_raises = (\<lambda>p line. if line = loading_line 0 ''m'' then None
                                else Some (PyException ''[Errno 32] Broken pipe'')),
      nbytes = (\<lambda>b. 1 + length b), pipe_size = 65536\<rparr>"

section \<open>Properties of the worker\<close>

lemma collect_outputs_gpu_id:
  "collect_outputs g ps i outs acc = Inr rs \<Longrightarrow> \<forall>r\<in>set acc. gpu_id r = g \<Longrightarrow> \<forall>r\<in>set rs. gpu_id r = g"
proof (induction g ps i outs acc rule: collect_outputs.induct)
  case (1 g prompts i results)
  then show ?case by simp
next
  case (2 g prompts i out rest results)
  then show ?case
    by (auto split: if_splits list.splits)
qed

lemma collect_outputs_no_base: "collect_outputs g ps i outs acc \<noteq> Inl (PyBaseOnly m)"
  by (induction g ps i outs acc rule: collect_outputs.induct) (auto split: list.splits)

lemma collect_outputs_ok:
  "i + length outs \<le> length ps \<Longrightarrow> \<forall>x\<in>set outs. outputs x \<noteq> [] \<Longrightarrow>
   collect_outputs g ps i outs acc =
     Inr (acc @ map (\<lambda>j. \<lparr>gpu_id = g, prompt = ps ! (i + j),
                          response = strip (c_text (hd (outputs (outs ! j))))\<rparr>) [0..<length outs])"
proof (induction outs arbitrary: i acc)
  case Nil
  then show ?case by simp
next
  case (Cons a outs)
  obtain c cs where a: "outputs a = c # cs" using Cons.prems(2) by (cases "outputs a") auto
  have "map (\<lambda>j. \<lparr>gpu_id = g, prompt = ps ! (i + j),
                          response = strip (c_text (hd (outputs ((a # outs) ! j))))\<rparr>) [0..<length (a # outs)]
      = \<lparr>gpu_id = g, prompt = ps ! i, response = strip (c_text c)\<rparr> #
        map (\<lambda>j. \<lparr>gpu_id = g, prompt = ps ! (Suc i + j),
                          response = strip (c_text (hd (outputs (outs ! j))))\<rparr>) [0..<length outs]"
    by (simp add: upt_conv_Cons a map_Suc_upt [symmetric] del: upt_Suc)
  then show ?case using Cons a by simp
qed

lemma computation_gpu_id:
  "computation pf env g m ps = Inr rs \<Longrightarrow> \<forall>r\<in>set rs. gpu_id r = g"
  by (auto simp: computation_def split: sum.splits dest: collect_outputs_gpu_id)

lemma handler_run_puts: "b \<in> set (snd (handler_run pf p g e)) \<Longrightarrow> b = []"
  by (auto simp: handler_run_def split: py_exc.splits option.splits)

lemma worker_run_gpu_id:
  "b \<in> set (snd (worker_run pf p env g m ps)) \<Longrightarrow> r \<in> set b \<Longrightarrow> gpu_id r = g"
  using computation_gpu_id [of pf env g m ps]
  by (auto simp: worker_run_def split: option.splits sum.splits dest: handler_run_puts)

lemma run_model_on_gpu_eq:
  "run_model_on_gpu pf p g m ps w =
     (fst (worker_run pf p (worker_env (os_environ w p) g) g m ps),
      w\<lparr>os_environ := (os_environ w)(p := worker_env (os_environ w p) g),
        unflushed := (unflushed w)
          (p := unflushed w p @ snd (worker_run pf p (worker_env (os_environ w p) g) g m ps)),
        trace := trace w @
          map (Pair p) (worker_events pf p (worker_env (os_environ w p) g) g m ps)\<rparr>)"
  by (simp add: run_model_on_gpu_def try_body_def worker_run_def worker_events_def
      handler_run_def computation_def setenv_def record_event_def put_def worker_env_def Let_def
      split: sum.splits py_exc.splits option.splits)

section \<open>Properties of the harness\<close>

lemma pipe_bytes_simps [simp]:
  "pipe_bytes pf [] = 0"
  "pipe_bytes pf (b # q) = nbytes pf b + pipe_bytes pf q"
  "pipe_bytes pf (q @ q') = pipe_bytes pf q + pipe_bytes pf q'"
  by (simp_all add: pipe_bytes_def)

lemma flush_buffer_fits:
  "\<not> wedged w \<Longrightarrow> pipe_bytes pf (results_queue w) + pipe_bytes pf bs \<le> pipe_size pf \<Longrightarrow>
   flush_buffer pf bs w = ([], w\<lparr>results_queue := results_queue w @ bs\<rparr>)"
proof (induction bs arbitrary: w)
  case Nil
  then show ?case by simp
next
  case (Cons b bs)
  let ?w = "w\<lparr>results_queue := results_queue w @ [b]\<rparr>"
  have "flush_buffer pf bs ?w = ([], ?w\<lparr>results_queue := results_queue ?w @ bs\<rparr>)"
    using Cons.prems by (intro Cons.IH) simp_all
  then show ?case
    using Cons.prems by simp
qed

lemma flush_buffer_shape:
  "flush_buffer pf bs w = (rest, w') \<Longrightarrow>
   \<exists>wr. bs = wr @ rest \<and>
        w' = w\<lparr>results_queue := results_queue w @ wr, wedged := (wedged w \<or> rest \<noteq> [])\<rparr> \<and>
        (pipe_bytes pf (results_queue w) \<le> pipe_size pf
           \<longrightarrow> pipe_bytes pf (results_queue w') \<le> pipe_size pf)"
proof (induction bs arbitrary: w)
  case Nil
  then show ?case by simp
next
  case (Cons b bs)
  show ?case
  proof (cases "wedged w")
    case True
    then show ?thesis using Cons.prems by (intro exI [of _ "[]"]) auto
  next
    case False
    show ?thesis
    proof (cases "pipe_bytes pf (results_queue w) + nbytes pf b \<le> pipe_size pf")
      case fits: True
      let ?w = "w\<lparr>results_queue := results_queue w @ [b]\<rparr>"
      have "flush_buffer pf bs ?w = (rest, w')"
        using Cons.prems False fits by simp
      from Cons.IH [OF this] obtain wr where
        wr: "bs = wr @ rest"
          "w' = ?w\<lparr>results_queue := results_queue ?w @ wr, wedged := (wedged ?w \<or> rest \<noteq> [])\<rparr>"
          "pipe_bytes pf (results_queue ?w) \<le> pipe_size pf
             \<longrightarrow> pipe_bytes pf (results_queue w') \<le> pipe_size pf"
        by blast
      show ?thesis
        using wr fits by (intro exI [of _ "b # wr"]) simp
    next
      case False
      then show ?thesis
        using Cons.prems \<open>\<not> wedged w\<close> by (intro exI [of _ "[]"]) auto
    qed
  qed
qed

lemma upt_3: "[0..<3] = [0, 1, 2]"
  by (simp add: upt_rec numeral_3_eq_3)

lemma spawn_loop_3:
  "spawn_loop [0..<3] [] w = (the_processes, start 2 (start 1 (start 0 w)))"
  by (simp add: upt_3 the_processes_def numeral_2_eq_2)

lemma length_the_processes: "length the_processes = 3"
  by (simp add: the_processes_def)

lemma nth_the_processes: "i < 3 \<Longrightarrow> the_processes ! i = (i, model_name, gpu_prompts ! i)"
  by (simp add: the_processes_def del: upt_Suc)

lemma run_child_skip:
  "\<not> (i < 3 \<and> status w i = Running) \<Longrightarrow> run_child pf the_processes i w = w"
  by (auto simp: run_child_def length_the_processes)

text \<open>What a child that runs does to the state.\<close>

lemma run_child_runs:
  assumes "i < 3" and "status w i = Running" and "unflushed w (Child i) = []"
    and "os_environ w (Child i) = penv"
  shows "\<exists>wr rest.
     child_puts pf penv i = wr @ rest \<and>
     os_environ (run_child pf the_processes i w)
       = (os_environ w)(Child i := worker_env penv i) \<and>
     unflushed (run_child pf the_processes i w) = (unflushed w)(Child i := rest) \<and>
     results_queue (run_child pf the_processes i w) = results_queue w @ wr \<and>
     wedged (run_child pf the_processes i w) = (wedged w \<or> rest \<noteq> []) \<and>
     hung (run_child pf the_processes i w) = hung w \<and>
     status (run_child pf the_processes i w)
       = (status w)(i := if rest = [] then Exited (exitcode (child_outcome pf penv i))
                         else Blocked) \<and>
     trace (run_child pf the_processes i w)
       = trace w @ map (Pair (Child i))
           (worker_events pf (Child i) (worker_env penv i) i model_name (gpu_prompts ! i)) \<and>
     (pipe_bytes pf (results_queue w) \<le> pipe_size pf
        \<longrightarrow> pipe_bytes pf (results_queue w @ wr) \<le> pipe_size pf) \<and>
     (\<not> wedged w \<and> pipe_bytes pf (results_queue w) + pipe_bytes pf (child_puts pf penv i)
                      \<le> pipe_size pf \<longrightarrow> rest = [])"
proof -
  let ?w1 = "snd (run_model_on_gpu pf (Child i) i model_name (gpu_prompts ! i) w)"
  let ?bs = "child_puts pf penv i"
  have buf: "unflushed ?w1 (Child i) = ?bs"
    using assms(3,4)
    by (simp add: run_model_on_gpu_eq child_puts_def child_run_def)
  obtain rest w2 where fl: "flush_buffer pf ?bs ?w1 = (rest, w2)"
    by (cases "flush_buffer pf ?bs ?w1")
  from flush_buffer_shape [OF fl] obtain wr where
    wr: "?bs = wr @ rest"
      "w2 = ?w1\<lparr>results_queue := results_queue ?w1 @ wr, wedged := (wedged ?w1 \<or> rest \<noteq> [])\<rparr>"
      "pipe_bytes pf (results_queue ?w1) \<le> pipe_size pf
         \<longrightarrow> pipe_bytes pf (results_queue w2) \<le> pipe_size pf"
    by blast
  have fits: "rest = []"
    if "\<not> wedged w \<and> pipe_bytes pf (results_queue w) + pipe_bytes pf ?bs \<le> pipe_size pf"
    using that fl flush_buffer_fits [of ?w1 pf ?bs]
    by (simp add: run_model_on_gpu_eq)
  have rc: "run_child pf the_processes i w =
      (let w'' = flush pf (Child i) ?w1 in
       w''\<lparr>status := (status w'')
             (i := if unflushed w'' (Child i) = []
                   then Exited (exitcode (fst (run_model_on_gpu pf (Child i) i model_name
                                                 (gpu_prompts ! i) w)))
                   else Blocked)\<rparr>)"
    using assms(1,2)
    by (simp add: run_child_def length_the_processes nth_the_processes case_prod_beta Let_def)
  have fw: "flush pf (Child i) ?w1 = w2\<lparr>unflushed := (unflushed w2)(Child i := rest)\<rparr>"
    using fl buf by (simp add: flush_def)
  have w1: "os_environ ?w1 = (os_environ w)(Child i := worker_env penv i)"
    "unflushed ?w1 = (unflushed w)(Child i := child_puts pf penv i)"
    "results_queue ?w1 = results_queue w" "wedged ?w1 = wedged w" "hung ?w1 = hung w"
    "status ?w1 = status w"
    "trace ?w1 = trace w @ map (Pair (Child i))
       (worker_events pf (Child i) (worker_env penv i) i model_name (gpu_prompts ! i))"
    "fst (run_model_on_gpu pf (Child i) i model_name (gpu_prompts ! i) w)
       = child_outcome pf penv i"
    using assms(3,4)
    by (simp_all add: run_model_on_gpu_eq child_puts_def child_outcome_def child_run_def)
  have pb: "pipe_bytes pf (results_queue w) \<le> pipe_size pf
        \<longrightarrow> pipe_bytes pf (results_queue w @ wr) \<le> pipe_size pf"
    using wr(3) by (simp add: wr(2) w1)
  show ?thesis
    apply (rule exI [of _ wr], rule exI [of _ rest])
    using wr(1) fits pb
    by (simp add: rc fw Let_def wr(2) w1 fun_upd_twist)
qed

lemma flush_status: "status (flush pf p w) = status w"
proof -
  obtain rest w' where fl: "flush_buffer pf (unflushed w p) w = (rest, w')"
    by (cases "flush_buffer pf (unflushed w p) w")
  from flush_buffer_shape [OF fl] show ?thesis
    using fl by (auto simp: flush_def)
qed

lemma run_child_status_other:
  "j \<noteq> i \<Longrightarrow> status (run_child pf processes i w) j = status w j"
  by (simp add: run_child_def run_model_on_gpu_eq flush_status Let_def case_prod_beta)

lemma run_child_status_done:
  "status w j \<noteq> Running \<Longrightarrow> status (run_child pf processes i w) j = status w j"
  by (cases "j = i") (simp_all add: run_child_status_other, simp add: run_child_def)

lemma filter_concat_tagged:
  "distinct ds \<Longrightarrow> \<forall>i\<in>set ds. \<forall>r\<in>set (E i). gpu_id r = i \<Longrightarrow>
   filter (\<lambda>r. gpu_id r = g) (concat (map E ds)) = (if g \<in> set ds then E g else [])"
proof (induction ds)
  case Nil
  then show ?case by simp
next
  case (Cons d ds)
  have keep: "filter (\<lambda>r. gpu_id r = d) (E d) = E d"
    using Cons.prems(2) by (simp add: filter_id_conv)
  have drop: "g \<noteq> d \<Longrightarrow> filter (\<lambda>r. gpu_id r = g) (E d) = []"
    using Cons.prems(2) by (auto simp: filter_empty_conv)
  show ?case
  proof (cases "g = d")
    case True
    then show ?thesis using Cons keep by simp
  next
    case False
    then show ?thesis using Cons drop by simp
  qed
qed

lemma sorted_concat_tagged:
  "sorted ds \<Longrightarrow> \<forall>i\<in>set ds. \<forall>r\<in>set (E i). gpu_id r = i \<Longrightarrow>
   sorted (map gpu_id (concat (map E ds)))"
proof (induction ds)
  case Nil
  then show ?case by simp
next
  case (Cons d ds)
  have "map gpu_id (E d) = map (\<lambda>_. d) (E d)"
    using Cons.prems(2) by (intro map_cong) auto
  then have same: "map gpu_id (E d) = replicate (length (E d)) d"
    by (simp add: map_replicate_const)
  have rest: "sorted (map gpu_id (concat (map E ds)))"
    using Cons by simp
  have cross: "\<forall>y\<in>set (concat (map E ds)). d \<le> gpu_id y"
    using Cons.prems by auto
  have "sorted (replicate (length (E d)) d @ map gpu_id (concat (map E ds)))"
    using rest cross by (auto simp: sorted_append)
  then show ?case
    using same by simp
qed

lemma mset_concat_map_perm:
  "mset ds = mset ds' \<Longrightarrow> mset (concat (map E ds)) = mset (concat (map E ds'))"
proof -
  assume "mset ds = mset ds'"
  then have "mset (map (\<lambda>i. mset (E i)) ds) = mset (map (\<lambda>i. mset (E i)) ds')"
    by simp
  then have "sum_list (map (\<lambda>i. mset (E i)) ds) = sum_list (map (\<lambda>i. mset (E i)) ds')"
    by (metis sum_mset_sum_list)
  then show ?thesis
    by (simp add: mset_concat comp_def)
qed

lemma sort_key_tagged:
  assumes "distinct ds" and "set ds = {0..<n}"
    and "\<forall>i<n. \<forall>r\<in>set (E i). gpu_id r = i"
  shows "sort_key gpu_id (concat (map E ds)) = concat (map E [0..<n])"
proof (rule properties_for_sort_key)
  have "mset ds = mset [0..<n]"
    using assms(1,2) set_eq_iff_mset_eq_distinct [of ds "[0..<n]"] by simp
  then show "mset (concat (map E [0..<n])) = mset (concat (map E ds))"
    using mset_concat_map_perm [of "[0..<n]" ds E] by simp
next
  fix k
  have a: "\<forall>i\<in>set ds. \<forall>r\<in>set (E i). gpu_id r = i"
    using assms(2,3) by simp
  have b: "\<forall>i\<in>set [0..<n]. \<forall>r\<in>set (E i). gpu_id r = i"
    using assms(3) by simp
  have flip: "(\<lambda>x. gpu_id k = gpu_id x) = (\<lambda>r. gpu_id r = gpu_id k)"
    by auto
  have "filter (\<lambda>r. gpu_id r = gpu_id k) (concat (map E [0..<n]))
      = filter (\<lambda>r. gpu_id r = gpu_id k) (concat (map E ds))"
    using filter_concat_tagged [OF assms(1) a, of "gpu_id k"]
      filter_concat_tagged [OF distinct_upt b, of "gpu_id k"] assms(2) by simp
  then show "filter (\<lambda>x. gpu_id k = gpu_id x) (concat (map E [0..<n]))
      = filter (\<lambda>x. gpu_id k = gpu_id x) (concat (map E ds))"
    unfolding flip .
next
  show "sorted (map gpu_id (concat (map E [0..<n])))"
    using assms(3) by (intro sorted_concat_tagged) auto
qed

lemma spawn_inv:
  "run_inv pf (os_environ w Parent) []
     (start 2 (start 1 (start 0
        (w\<lparr>results_queue := [], unflushed := (\<lambda>p. []), wedged := False, hung := False\<rparr>))))"
  by (auto simp: run_inv_def start_def record_event_def less_Suc_eq numeral_3_eq_3)

lemma record_event_inv:
  "run_inv pf penv ds w \<Longrightarrow> run_inv pf penv ds (record_event p e w)"
  by (simp add: run_inv_def record_event_def)

lemma hung_update_inv:
  "run_inv pf penv ds w \<Longrightarrow> run_inv pf penv ds (w\<lparr>hung := b\<rparr>)"
  by (simp add: run_inv_def)

lemma run_child_inv:
  assumes "run_inv pf penv ds w"
  shows "run_inv pf penv (if i < 3 \<and> i \<notin> set ds then ds @ [i] else ds)
           (run_child pf the_processes i w)"
proof (cases "i < 3 \<and> i \<notin> set ds")
  case False
  then have "\<not> (i < 3 \<and> status w i = Running)"
    using assms by (auto simp: run_inv_def split: if_splits)
  then have "run_child pf the_processes i w = w"
    by (rule run_child_skip)
  then show ?thesis
    using assms False by auto
next
  case True
  then have i: "i < 3" "i \<notin> set ds" by auto
  have run: "status w i = Running" and env: "os_environ w (Child i) = penv"
    and buf: "unflushed w (Child i) = []"
    using assms i by (auto simp: run_inv_def)
  let ?w' = "run_child pf the_processes i w"
  from run_child_runs [OF i(1) run buf env, of pf] obtain wr rest where
    c: "child_puts pf penv i = wr @ rest"
      "os_environ ?w' = (os_environ w)(Child i := worker_env penv i)"
      "unflushed ?w' = (unflushed w)(Child i := rest)"
      "results_queue ?w' = results_queue w @ wr"
      "status ?w' = (status w)(i := if rest = [] then Exited (exitcode (child_outcome pf penv i))
                                    else Blocked)"
      "pipe_bytes pf (results_queue w) \<le> pipe_size pf
         \<longrightarrow> pipe_bytes pf (results_queue w @ wr) \<le> pipe_size pf"
    by blast
  from assms obtain wr0 where
    wr0: "results_queue w = concat (map wr0 ds)"
      "\<forall>j\<in>set ds. child_puts pf penv j = wr0 j @ unflushed w (Child j)"
    by (auto simp: run_inv_def)
  let ?wr = "wr0(i := wr)"
  have m: "map ?wr ds = map wr0 ds"
    using i(2) by (intro map_cong) auto
  have q: "results_queue ?w' = concat (map ?wr (ds @ [i]))"
    using wr0(1) by (simp add: c(4) m)
  have p: "\<forall>j\<in>set (ds @ [i]). child_puts pf penv j = ?wr j @ unflushed ?w' (Child j)"
    using wr0(2) c(1) i(2) by (auto simp: c(3))
  have "run_inv pf penv (ds @ [i]) ?w'"
    unfolding run_inv_def
  proof (intro conjI)
    show "distinct (ds @ [i])" using assms i by (simp add: run_inv_def)
    show "set (ds @ [i]) \<subseteq> {0..<3}" using assms i by (simp add: run_inv_def)
    show "os_environ ?w' Parent = penv" using assms by (simp add: c(2) run_inv_def)
    show "pipe_bytes pf (results_queue ?w') \<le> pipe_size pf"
      using assms c(6) by (simp add: c(4) run_inv_def)
    show "\<forall>j<3. if j \<in> set (ds @ [i])
            then status ?w' j = (if unflushed ?w' (Child j) = []
                               then Exited (exitcode (child_outcome pf penv j)) else Blocked) \<and>
                 os_environ ?w' (Child j) = worker_env penv j
            else status ?w' j = Running \<and> os_environ ?w' (Child j) = penv \<and>
                 unflushed ?w' (Child j) = []"
      using assms i by (auto simp: c(2,3,5) run_inv_def)
    show "\<exists>wr. results_queue ?w' = concat (map wr (ds @ [i])) \<and>
           (\<forall>j\<in>set (ds @ [i]). child_puts pf penv j = wr j @ unflushed ?w' (Child j))"
      using q p by blast
  qed
  then show ?thesis
    using True by simp
qed

lemma run_children_inv:
  "run_inv pf penv ds w \<Longrightarrow>
   \<exists>ds'. run_inv pf penv ds' (run_children pf the_processes sched w) \<and> set ds \<subseteq> set ds'"
proof (induction sched arbitrary: ds w)
  case Nil
  then show ?case by auto
next
  case (Cons i sched)
  let ?ds = "if i < 3 \<and> i \<notin> set ds then ds @ [i] else ds"
  have "run_inv pf penv ?ds (run_child pf the_processes i w)"
    using Cons.prems by (rule run_child_inv)
  from Cons.IH [OF this] obtain ds' where
    "run_inv pf penv ds' (run_children pf the_processes sched (run_child pf the_processes i w))"
    and "set ?ds \<subseteq> set ds'"
    by blast
  then show ?case
    by (auto split: if_splits)
qed

lemma join_inv:
  assumes "run_inv pf penv ds w"
  shows "\<exists>ds'. run_inv pf penv ds' (join pf the_processes i w) \<and> set ds \<subseteq> set ds'
           \<and> (i < 3 \<longrightarrow> i \<in> set ds')"
proof -
  let ?ds = "if i < 3 \<and> i \<notin> set ds then ds @ [i] else ds"
  have "run_inv pf penv ?ds (run_child pf the_processes i w)"
    using assms by (rule run_child_inv)
  then have "run_inv pf penv ?ds (join pf the_processes i w)"
    by (auto simp: join_def Let_def record_event_inv hung_update_inv split: proc_status.splits)
  moreover have "set ds \<subseteq> set ?ds" and "i < 3 \<longrightarrow> i \<in> set ?ds"
    by auto
  ultimately show ?thesis by blast
qed

lemma join_loop_inv:
  "run_inv pf penv ds w \<Longrightarrow>
   \<exists>ds'. run_inv pf penv ds' (join_loop pf the_processes js w)
        \<and> set ds \<subseteq> set ds' \<and> set js \<inter> {0..<3} \<subseteq> set ds'"
proof (induction js arbitrary: ds w)
  case Nil
  then show ?case by auto
next
  case (Cons j js)
  from join_inv [OF Cons.prems, of j] obtain d1 where
    d1: "run_inv pf penv d1 (join pf the_processes j w)" "set ds \<subseteq> set d1"
      "j < 3 \<longrightarrow> j \<in> set d1"
    by blast
  from Cons.IH [OF d1(1)] obtain d2 where
    d2: "run_inv pf penv d2 (join_loop pf the_processes js (join pf the_processes j w))"
      "set d1 \<subseteq> set d2" "set js \<inter> {0..<3} \<subseteq> set d2"
    by blast
  show ?case
    using d1 d2 by (intro exI [of _ d2]) auto
qed

lemma joined_unfold:
  "joined pf sched w =
     join_loop pf the_processes [0..<3]
       (run_children pf the_processes sched
          (start 2 (start 1 (start 0
             (w\<lparr>results_queue := [], unflushed := (\<lambda>p. []), wedged := False,
                 hung := False\<rparr>)))))"
  by (simp add: joined_def spawn_loop_3 length_the_processes)

lemma joined_inv:
  "\<exists>ds. run_inv pf (os_environ w Parent) ds (joined pf sched w) \<and> set ds = {0..<3}"
proof -
  let ?w1 = "start 2 (start 1 (start 0
     (w\<lparr>results_queue := [], unflushed := (\<lambda>p. []), wedged := False, hung := False\<rparr>)))"
  from run_children_inv [OF spawn_inv, of pf w sched] obtain d1 where
    d1: "run_inv pf (os_environ w Parent) d1 (run_children pf the_processes sched ?w1)"
    by blast
  from join_loop_inv [OF d1, of "[0..<3]"] obtain d2 where
    d2: "run_inv pf (os_environ w Parent) d2 (joined pf sched w)" "{0..<3} \<subseteq> set d2"
    unfolding joined_unfold by auto
  moreover have "set d2 \<subseteq> {0..<3}"
    using d2(1) by (simp add: run_inv_def)
  ultimately show ?thesis
    by (intro exI [of _ d2]) auto
qed

lemma flush_hung: "hung (flush pf p w) = hung w"
proof -
  obtain rest w' where fl: "flush_buffer pf (unflushed w p) w = (rest, w')"
    by (cases "flush_buffer pf (unflushed w p) w")
  from flush_buffer_shape [OF fl] show ?thesis
    using fl by (auto simp: flush_def)
qed

lemma run_child_hung: "hung (run_child pf processes i w) = hung w"
  by (simp add: run_child_def run_model_on_gpu_eq flush_hung Let_def case_prod_beta)

lemma run_children_hung: "hung (run_children pf processes sched w) = hung w"
  by (induction sched arbitrary: w) (simp_all add: run_child_hung)

lemma join_hung_mono: "hung w \<Longrightarrow> hung (join pf processes i w)"
  by (simp add: join_def Let_def run_child_hung)

lemma join_loop_hung_mono: "hung w \<Longrightarrow> hung (join_loop pf processes js w)"
  by (induction js arbitrary: w) (simp_all add: join_hung_mono)

lemma join_status: "status (join pf processes i w) = status (run_child pf processes i w)"
  by (simp add: join_def Let_def record_event_def split: proc_status.splits)

lemma join_status_done:
  "status w j \<noteq> Running \<Longrightarrow> status (join pf processes i w) j = status w j"
  by (simp add: join_status run_child_status_done)

lemma join_loop_status_done:
  "status w j \<noteq> Running \<Longrightarrow> status (join_loop pf processes js w) j = status w j"
  by (induction js arbitrary: w) (simp_all add: join_status_done)

lemma join_not_hung:
  "\<not> hung (join pf processes i w) \<Longrightarrow> \<exists>c. status (join pf processes i w) i = Exited c"
  by (auto simp: join_def Let_def record_event_def split: if_splits proc_status.splits)

lemma join_loop_exited:
  "\<not> hung (join_loop pf processes js w) \<Longrightarrow> j \<in> set js \<Longrightarrow>
   \<exists>c. status (join_loop pf processes js w) j = Exited c"
proof (induction js arbitrary: w)
  case Nil
  then show ?case by simp
next
  case (Cons a js)
  have nh: "\<not> hung (join pf processes a w)"
    using Cons.prems(1) join_loop_hung_mono by fastforce
  show ?case
  proof (cases "j = a")
    case True
    from join_not_hung [OF nh] obtain c where "status (join pf processes a w) a = Exited c" ..
    then show ?thesis
      using True by (simp add: join_loop_status_done)
  next
    case False
    then show ?thesis
      using Cons by simp
  qed
qed

lemma joined_exited:
  "\<not> hung (joined pf sched w) \<Longrightarrow> i < 3 \<Longrightarrow> \<exists>c. status (joined pf sched w) i = Exited c"
  unfolding joined_unfold by (rule join_loop_exited) simp_all

text \<open>When the parent does not hang, everything that was put is in the pipe.\<close>

lemma joined_all_written:
  assumes "\<not> hung (joined pf sched w)"
  shows "\<exists>ds. distinct ds \<and> set ds = {0..<3} \<and>
           results_queue (joined pf sched w)
             = concat (map (child_puts pf (os_environ w Parent)) ds) \<and>
           pipe_bytes pf (results_queue (joined pf sched w)) \<le> pipe_size pf \<and>
           (\<forall>i<3. unflushed (joined pf sched w) (Child i) = [] \<and>
                  status (joined pf sched w) i
                    = Exited (exitcode (child_outcome pf (os_environ w Parent) i)))"
proof -
  let ?w = "joined pf sched w" and ?penv = "os_environ w Parent"
  from joined_inv [of pf w sched] obtain ds where
    inv: "run_inv pf ?penv ds ?w" and ds: "set ds = {0..<3}"
    by blast
  have st: "unflushed ?w (Child i) = [] \<and> status ?w i = Exited (exitcode (child_outcome pf ?penv i))"
    if "i < 3" for i
  proof -
    from joined_exited [OF assms that] obtain c where c: "status ?w i = Exited c" ..
    have "status ?w i = (if unflushed ?w (Child i) = []
             then Exited (exitcode (child_outcome pf ?penv i)) else Blocked)"
      using inv ds that by (auto simp: run_inv_def)
    then show ?thesis
      using c by (auto split: if_splits)
  qed
  from inv obtain wr where
    wr: "results_queue ?w = concat (map wr ds)"
      "\<forall>j\<in>set ds. child_puts pf ?penv j = wr j @ unflushed ?w (Child j)"
    by (auto simp: run_inv_def)
  have "map wr ds = map (child_puts pf ?penv) ds"
    using wr(2) st ds by (intro map_cong) auto
  then have "results_queue ?w = concat (map (child_puts pf ?penv) ds)"
    by (simp only: wr(1))
  then show ?thesis
    using inv ds st by (intro exI [of _ ds]) (auto simp: run_inv_def)
qed

lemma pipe_bytes_concat: "pipe_bytes pf (concat qs) = sum_list (map (pipe_bytes pf) qs)"
  by (induction qs) simp_all

lemma sum_list_perm_upt:
  fixes f :: "nat \<Rightarrow> nat"
  assumes "distinct ds" and "set ds = {0..<n}"
  shows "sum_list (map f ds) = sum_list (map f [0..<n])"
proof -
  have "mset ds = mset [0..<n]"
    using assms set_eq_iff_mset_eq_distinct [of ds "[0..<n]"] by simp
  then have "mset (map f ds) = mset (map f [0..<n])"
    by simp
  then show ?thesis
    by (metis sum_mset_sum_list)
qed

lemma sum_list_sub_upt:
  fixes f :: "nat \<Rightarrow> nat"
  assumes "distinct ds" and "set ds \<subseteq> {0..<n}" and "i < n" and "i \<notin> set ds"
  shows "sum_list (map f ds) + f i \<le> sum_list (map f [0..<n])"
proof -
  have "sum_list (map f (i # ds)) = sum f (set (i # ds))"
    using assms by (intro sum_list_distinct_conv_sum_set) simp
  moreover have "sum_list (map f [0..<n]) = sum f {0..<n}"
    by (simp add: sum_list_distinct_conv_sum_set)
  moreover have "sum f (set (i # ds)) \<le> sum f {0..<n}"
    using assms by (intro sum_mono2) auto
  ultimately show ?thesis
    by simp
qed

lemma not_hung_fits:
  assumes "\<not> hung (joined pf sched w)"
  shows "total_bytes pf (os_environ w Parent) \<le> pipe_size pf"
proof -
  from joined_all_written [OF assms] obtain ds where
    ds: "distinct ds" "set ds = {0..<3}"
      "results_queue (joined pf sched w) = concat (map (child_puts pf (os_environ w Parent)) ds)"
      "pipe_bytes pf (results_queue (joined pf sched w)) \<le> pipe_size pf"
    by blast
  have "pipe_bytes pf (results_queue (joined pf sched w))
      = sum_list (map (\<lambda>i. pipe_bytes pf (child_puts pf (os_environ w Parent) i)) ds)"
    by (simp add: ds(3) pipe_bytes_concat comp_def)
  also have "\<dots> = total_bytes pf (os_environ w Parent)"
    unfolding total_bytes_def using ds(1,2) by (rule sum_list_perm_upt)
  finally show ?thesis
    using ds(4) by simp
qed

lemma fit_inv_queue_bytes:
  assumes "fit_inv pf penv ds w"
  shows "pipe_bytes pf (results_queue w)
           = sum_list (map (\<lambda>i. pipe_bytes pf (child_puts pf penv i)) ds)"
proof -
  from assms obtain wr where
    wr: "results_queue w = concat (map wr ds)"
      "\<forall>j\<in>set ds. child_puts pf penv j = wr j @ unflushed w (Child j)"
    by (auto simp: fit_inv_def run_inv_def)
  have "map wr ds = map (child_puts pf penv) ds"
    using wr(2) assms by (intro map_cong) (auto simp: fit_inv_def)
  then have "results_queue w = concat (map (child_puts pf penv) ds)"
    by (simp only: wr(1))
  then show ?thesis
    by (simp add: pipe_bytes_concat comp_def)
qed

lemma run_child_fit:
  assumes "total_bytes pf penv \<le> pipe_size pf" and "fit_inv pf penv ds w"
  shows "fit_inv pf penv (if i < 3 \<and> i \<notin> set ds then ds @ [i] else ds)
           (run_child pf the_processes i w)"
proof (cases "i < 3 \<and> i \<notin> set ds")
  case False
  then have "\<not> (i < 3 \<and> status w i = Running)"
    using assms(2) by (auto simp: fit_inv_def run_inv_def split: if_splits)
  then have "run_child pf the_processes i w = w"
    by (rule run_child_skip)
  then show ?thesis
    using assms(2) False by auto
next
  case True
  then have i: "i < 3" "i \<notin> set ds" by auto
  have inv: "run_inv pf penv ds w" and nw: "\<not> wedged w" and nh: "\<not> hung w"
    and emp: "\<forall>j\<in>set ds. unflushed w (Child j) = []"
    using assms(2) by (auto simp: fit_inv_def)
  have run: "status w i = Running" and env: "os_environ w (Child i) = penv"
    and buf: "unflushed w (Child i) = []"
    using inv i by (auto simp: run_inv_def)
  have "sum_list (map (\<lambda>j. pipe_bytes pf (child_puts pf penv j)) ds)
          + pipe_bytes pf (child_puts pf penv i)
        \<le> sum_list (map (\<lambda>j. pipe_bytes pf (child_puts pf penv j)) [0..<3])"
    using inv i by (intro sum_list_sub_upt) (auto simp: run_inv_def)
  then have room: "pipe_bytes pf (results_queue w) + pipe_bytes pf (child_puts pf penv i)
                     \<le> pipe_size pf"
    using assms(1) fit_inv_queue_bytes [OF assms(2)] by (simp add: total_bytes_def)
  let ?w' = "run_child pf the_processes i w"
  from run_child_runs [OF i(1) run buf env, of pf] obtain wr rest where
    c: "unflushed ?w' = (unflushed w)(Child i := rest)"
      "wedged ?w' = (wedged w \<or> rest \<noteq> [])" "hung ?w' = hung w"
      "\<not> wedged w \<and> pipe_bytes pf (results_queue w) + pipe_bytes pf (child_puts pf penv i)
                      \<le> pipe_size pf \<longrightarrow> rest = []"
    by blast
  have rest: "rest = []"
    using c(4) nw room by simp
  have "run_inv pf penv (ds @ [i]) ?w'"
    using run_child_inv [OF inv, of i] True by simp
  then have "fit_inv pf penv (ds @ [i]) ?w'"
    using nw nh emp rest by (auto simp: fit_inv_def c(1,2,3))
  then show ?thesis
    using True by simp
qed

lemma run_children_fit:
  "total_bytes pf penv \<le> pipe_size pf \<Longrightarrow> fit_inv pf penv ds w \<Longrightarrow>
   \<exists>ds'. fit_inv pf penv ds' (run_children pf the_processes sched w)"
proof (induction sched arbitrary: ds w)
  case Nil
  then show ?case by auto
next
  case (Cons i sched)
  from run_child_fit [OF Cons.prems, of i] Cons.IH [OF Cons.prems(1)] show ?case
    by simp
qed

lemma join_fit:
  assumes "total_bytes pf penv \<le> pipe_size pf" and "fit_inv pf penv ds w" and "i < 3"
  shows "\<exists>ds'. fit_inv pf penv ds' (join pf the_processes i w)"
proof -
  let ?ds = "if i < 3 \<and> i \<notin> set ds then ds @ [i] else ds"
  let ?w' = "run_child pf the_processes i w"
  have f: "fit_inv pf penv ?ds ?w'"
    using assms(1,2) by (rule run_child_fit)
  have "i \<in> set ?ds" using assms(3) by simp
  then have "status ?w' i = Exited (exitcode (child_outcome pf penv i))"
    using f assms(3) by (auto simp: fit_inv_def run_inv_def)
  moreover have "\<not> hung ?w'"
    using f by (simp add: fit_inv_def)
  ultimately have "join pf the_processes i w = record_event Parent (EvJoin i None) ?w'"
    by (simp add: join_def Let_def)
  moreover have "fit_inv pf penv ?ds (record_event Parent (EvJoin i None) ?w')"
    using f by (simp add: fit_inv_def record_event_inv) (simp add: record_event_def)
  ultimately show ?thesis
    by auto
qed

lemma join_loop_fit:
  "total_bytes pf penv \<le> pipe_size pf \<Longrightarrow> fit_inv pf penv ds w \<Longrightarrow> \<forall>j\<in>set js. j < 3 \<Longrightarrow>
   \<exists>ds'. fit_inv pf penv ds' (join_loop pf the_processes js w)"
proof (induction js arbitrary: ds w)
  case Nil
  then show ?case by auto
next
  case (Cons j js)
  from join_fit [OF Cons.prems(1,2), of j] Cons.prems(3) obtain d1 where
    "fit_inv pf penv d1 (join pf the_processes j w)"
    by auto
  from Cons.IH [OF Cons.prems(1) this] Cons.prems(3) show ?case
    by simp
qed

lemma fits_not_hung:
  assumes "total_bytes pf (os_environ w Parent) \<le> pipe_size pf"
  shows "\<not> hung (joined pf sched w)"
proof -
  let ?w1 = "start 2 (start 1 (start 0
     (w\<lparr>results_queue := [], unflushed := (\<lambda>p. []), wedged := False, hung := False\<rparr>)))"
  have "fit_inv pf (os_environ w Parent) [] ?w1"
    using spawn_inv [of pf w] by (simp add: fit_inv_def) (simp add: start_def record_event_def)
  from run_children_fit [OF assms this, of sched] obtain d1 where
    "fit_inv pf (os_environ w Parent) d1 (run_children pf the_processes sched ?w1)"
    by blast
  from join_loop_fit [OF assms this, of "[0..<3]"] obtain d2 where
    "fit_inv pf (os_environ w Parent) d2 (joined pf sched w)"
    unfolding joined_unfold by auto
  then show ?thesis
    by (simp add: fit_inv_def)
qed

text \<open>The parent hangs exactly when what the children put does not fit into the pipe.\<close>

lemma hung_iff: "hung (joined pf sched w) \<longleftrightarrow> pipe_size pf < total_bytes pf (os_environ w Parent)"
  using fits_not_hung [of pf w sched] not_hung_fits [of pf sched w] by (auto simp: not_le [symmetric])

lemma drain_loop_eq:
  "results_queue w = q \<Longrightarrow>
   drain_loop acc w =
     (acc @ concat q,
      w\<lparr>results_queue := [],
        trace := trace w @
          map (Pair Parent) (concat (map (\<lambda>b. [EvEmpty False, EvGet]) q) @ [EvEmpty True])\<rparr>)"
proof (induction q arbitrary: acc w)
  case Nil
  then show ?case
    by (subst drain_loop.simps) (simp add: record_event_def)
next
  case (Cons b q)
  let ?w' = "(record_event Parent EvGet (record_event Parent (EvEmpty False) w))\<lparr>results_queue := q\<rparr>"
  have "results_queue ?w' = q" by simp
  from Cons.IH [OF this, of "acc @ b"] show ?case
    using Cons.prems
    by (subst drain_loop.simps) (simp add: record_event_def)
qed

lemma child_entries_gpu_id: "r \<in> set (child_entries pf penv i) \<Longrightarrow> gpu_id r = i"
  using worker_run_gpu_id [of _ pf "Child i" "worker_env penv i" i model_name "gpu_prompts ! i" r]
  by (auto simp: child_entries_def child_puts_def child_run_def)

lemma concat_concat_map: "concat (concat (map f xs)) = concat (map (\<lambda>x. concat (f x)) xs)"
  by (induction xs) simp_all

lemma test_multi_gpu_unfold:
  "test_multi_gpu pf sched w =
     (if hung (joined pf sched w) then None
      else Some
        (sort_key gpu_id (concat (results_queue (joined pf sched w))),
         (joined pf sched w)
           \<lparr>results_queue := [],
            trace := trace (joined pf sched w) @
              map (Pair Parent)
                (concat (map (\<lambda>b. [EvEmpty False, EvGet]) (results_queue (joined pf sched w)))
                 @ [EvEmpty True])\<rparr>))"
  by (simp add: test_multi_gpu_def drain_loop_eq [OF refl])

lemma sorted_queue:
  assumes "\<not> hung (joined pf sched w)"
  shows "sort_key gpu_id (concat (results_queue (joined pf sched w)))
           = concat (map (child_entries pf (os_environ w Parent)) [0..<3])"
proof -
  from joined_all_written [OF assms] obtain ds where
    ds: "distinct ds" "set ds = {0..<3}"
      "results_queue (joined pf sched w) = concat (map (child_puts pf (os_environ w Parent)) ds)"
    by blast
  have q: "concat (results_queue (joined pf sched w))
             = concat (map (child_entries pf (os_environ w Parent)) ds)"
    by (simp add: ds(3) concat_concat_map child_entries_def [abs_def])
  have "sort_key gpu_id (concat (map (child_entries pf (os_environ w Parent)) ds))
      = concat (map (child_entries pf (os_environ w Parent)) [0..<3])"
    using ds(1,2) by (intro sort_key_tagged) (auto dest: child_entries_gpu_id)
  then show ?thesis
    by (simp add: q)
qed

lemma test_multi_gpu_result:
  "map_option fst (test_multi_gpu pf sched w) =
     (if total_bytes pf (os_environ w Parent) \<le> pipe_size pf
      then Some (concat (map (child_entries pf (os_environ w Parent)) [0..<3]))
      else None)"
  by (auto simp: test_multi_gpu_unfold hung_iff sorted_queue not_le)

lemma joined_os_environ:
  "os_environ (joined pf sched w) Parent = os_environ w Parent"
  "i < 3 \<Longrightarrow> os_environ (joined pf sched w) (Child i) = worker_env (os_environ w Parent) i"
  using joined_inv [of pf w sched] by (auto simp: run_inv_def)

lemma joined_queue_entries:
  assumes "r \<in> set (concat (results_queue (joined pf sched w)))"
  shows "gpu_id r < 3 \<and> r \<in> set (child_entries pf (os_environ w Parent) (gpu_id r))"
proof -
  from joined_inv [of pf w sched] obtain ds wr where
    ds: "set ds = {0..<3}" and
    wr: "results_queue (joined pf sched w) = concat (map wr ds)"
      "\<forall>j\<in>set ds. child_puts pf (os_environ w Parent) j
                     = wr j @ unflushed (joined pf sched w) (Child j)"
    by (auto simp: run_inv_def)
  from assms obtain j b where j: "j \<in> set ds" "b \<in> set (wr j)" "r \<in> set b"
    by (auto simp: wr(1))
  then have "b \<in> set (child_puts pf (os_environ w Parent) j)"
    using wr(2) by auto
  then have "r \<in> set (child_entries pf (os_environ w Parent) j)"
    using j(3) by (auto simp: child_entries_def)
  moreover from this have "gpu_id r = j"
    by (rule child_entries_gpu_id)
  ultimately show ?thesis
    using j(1) ds by auto
qed

lemma events_of_append [simp]: "events_of p (xs @ ys) = events_of p xs @ events_of p ys"
  by (simp add: events_of_def)

lemma events_of_other: "p \<noteq> q \<Longrightarrow> events_of p (map (Pair q) es) = []"
  by (induction es) (simp_all add: events_of_def)

lemma events_of_same: "events_of p (map (Pair p) es) = es"
  by (induction es) (simp_all add: events_of_def)

lemma events_of_Cons [simp]:
  "events_of p ((q, e) # tr) = (if q = p then e # events_of p tr else events_of p tr)"
  by (simp add: events_of_def)

lemma events_of_Nil [simp]: "events_of p [] = []"
  by (simp add: events_of_def)

lemma flush_trace: "trace (flush pf p w) = trace w"
proof -
  obtain rest w' where fl: "flush_buffer pf (unflushed w p) w = (rest, w')"
    by (cases "flush_buffer pf (unflushed w p) w")
  from flush_buffer_shape [OF fl] show ?thesis
    using fl by (auto simp: flush_def)
qed

lemma flush_results_queue: "\<exists>wr. results_queue (flush pf p w) = results_queue w @ wr"
proof -
  obtain rest w' where fl: "flush_buffer pf (unflushed w p) w = (rest, w')"
    by (cases "flush_buffer pf (unflushed w p) w")
  from flush_buffer_shape [OF fl] show ?thesis
    using fl by (auto simp: flush_def)
qed

lemma run_child_results_queue:
  "\<exists>wr. results_queue (run_child pf processes i w) = results_queue w @ wr"
proof (cases "i < length processes \<and> status w i = Running")
  case False
  then show ?thesis by (auto simp: run_child_def)
next
  case True
  obtain g m ps where p: "processes ! i = (g, m, ps)" by (cases "processes ! i")
  from flush_results_queue [of pf "Child i" "snd (run_model_on_gpu pf (Child i) g m ps w)"]
  show ?thesis
    using True p by (auto simp: run_child_def Let_def case_prod_beta run_model_on_gpu_eq)
qed

lemma run_child_parent_events:
  "events_of Parent (trace (run_child pf processes i w)) = events_of Parent (trace w)"
  by (simp add: run_child_def Let_def case_prod_beta flush_trace run_model_on_gpu_eq
      events_of_other)

lemma run_children_parent_events:
  "events_of Parent (trace (run_children pf processes sched w)) = events_of Parent (trace w)"
  by (induction sched arbitrary: w) (simp_all add: run_child_parent_events)

lemma join_parent_events:
  "events_of Parent (trace (join pf processes i w))
     = events_of Parent (trace w) @ (if hung (join pf processes i w) then [] else [EvJoin i None])"
  by (auto simp: join_def Let_def record_event_def run_child_parent_events
      split: proc_status.splits)

lemma join_loop_hung_events:
  "hung w \<Longrightarrow> events_of Parent (trace (join_loop pf processes js w)) = events_of Parent (trace w)"
  by (induction js arbitrary: w) (simp_all add: join_parent_events join_hung_mono)

lemma join_loop_parent_events:
  "\<exists>k\<le>length js.
     events_of Parent (trace (join_loop pf processes js w))
       = events_of Parent (trace w) @ map (\<lambda>i. EvJoin i None) (take k js)
     \<and> (hung (join_loop pf processes js w) \<or> k = length js)
     \<and> (hung (join_loop pf processes js w) \<and> \<not> hung w \<longrightarrow> k < length js)"
proof (induction js arbitrary: w)
  case Nil
  then show ?case by simp
next
  case (Cons j js)
  show ?case
  proof (cases "hung (join pf processes j w)")
    case True
    then have h: "hung (join_loop pf processes (j # js) w)"
      by (simp add: join_loop_hung_mono)
    have "events_of Parent (trace (join_loop pf processes (j # js) w)) = events_of Parent (trace w)"
      using True by (simp add: join_loop_hung_events join_parent_events)
    then show ?thesis
      using h by (intro exI [of _ 0]) simp
  next
    case False
    from Cons.IH [of "join pf processes j w"] obtain k where
      k: "k \<le> length js"
        "events_of Parent (trace (join_loop pf processes js (join pf processes j w)))
           = events_of Parent (trace (join pf processes j w)) @ map (\<lambda>i. EvJoin i None) (take k js)"
        "hung (join_loop pf processes js (join pf processes j w)) \<or> k = length js"
        "hung (join_loop pf processes js (join pf processes j w)) \<and> \<not> hung (join pf processes j w)
           \<longrightarrow> k < length js"
      by blast
    show ?thesis
      using k False by (intro exI [of _ "Suc k"]) (simp add: join_parent_events)
  qed
qed

lemma start_parent_events:
  "events_of Parent (trace (start i w)) = events_of Parent (trace w) @ [EvStart i]"
  by (simp add: start_def record_event_def)

lemma joined_parent_events:
  "\<exists>k\<le>3. events_of Parent (trace (joined pf sched w))
       = events_of Parent (trace w) @ map EvStart [0..<3] @ map (\<lambda>i. EvJoin i None) [0..<k]
     \<and> (hung (joined pf sched w) \<longrightarrow> k < 3) \<and> (\<not> hung (joined pf sched w) \<longrightarrow> k = 3)"
proof -
  let ?w0 = "w\<lparr>results_queue := [], unflushed := (\<lambda>p. []), wedged := False, hung := False\<rparr>"
  let ?w1 = "start 2 (start 1 (start 0 ?w0))"
  let ?w2 = "run_children pf the_processes sched ?w1"
  have s: "events_of Parent (trace ?w2) = events_of Parent (trace w) @ map EvStart [0..<3]"
    by (simp add: run_children_parent_events start_parent_events upt_3)
  have nh: "\<not> hung ?w2"
    by (simp add: run_children_hung start_def record_event_def)
  from join_loop_parent_events [of "[0..<3]" pf the_processes ?w2] obtain k where
    k0: "k \<le> length [0..<3]"
      "events_of Parent (trace (join_loop pf the_processes [0..<3] ?w2))
         = events_of Parent (trace ?w2) @ map (\<lambda>i. EvJoin i None) (take k [0..<3])"
      "hung (join_loop pf the_processes [0..<3] ?w2) \<or> k = length [0..<3]"
      "hung (join_loop pf the_processes [0..<3] ?w2) \<and> \<not> hung ?w2 \<longrightarrow> k < length [0..<3]"
    by blast
  have k: "k \<le> 3" "hung (join_loop pf the_processes [0..<3] ?w2) \<or> k = 3"
    "hung (join_loop pf the_processes [0..<3] ?w2) \<longrightarrow> k < 3"
    using k0(1,3,4) nh by simp_all
  have t: "take k [0..<3] = [0..<k]"
    using k(1) by (simp add: take_upt)
  have e: "events_of Parent (trace (joined pf sched w))
       = events_of Parent (trace w) @ map EvStart [0..<3] @ map (\<lambda>i. EvJoin i None) [0..<k]"
    by (simp only: joined_unfold k0(2) s t append_assoc)
  have h: "hung (joined pf sched w) = hung (join_loop pf the_processes [0..<3] ?w2)"
    by (simp only: joined_unfold)
  show ?thesis
    using k e h by (intro exI [of _ k]) auto
qed

section \<open>Auxiliary facts for the examples and the statements\<close>

lemma length_gpu_prompts: "g < 3 \<Longrightarrow> length (gpu_prompts ! g) = 2"
  by (auto simp: gpu_prompts_def less_Suc_eq numeral_3_eq_3)

lemma echo_outputs_props:
  "length (echo_outputs ps) = length ps" "\<forall>x\<in>set (echo_outputs ps). outputs x \<noteq> []"
  "i < length ps \<Longrightarrow> c_text (hd (outputs (echo_outputs ps ! i))) = ''echo:'' @ ps ! i"
  by (auto simp: echo_outputs_def)





lemma quiet_child_run:
  assumes "print_raises pf = (\<lambda>p line. None)"
  shows "child_run pf penv i =
     (case computation pf (worker_env penv i) i model_name (gpu_prompts ! i) of
        Inr rs \<Rightarrow> (Returned, [rs])
      | Inl (PyException msg) \<Rightarrow> (Returned, [[]])
      | Inl (PySystemExit c) \<Rightarrow> (Raised (PySystemExit c), [])
      | Inl (PyBaseOnly s) \<Rightarrow> (Raised (PyBaseOnly s), []))"
  using assms
  by (simp add: child_run_def worker_run_def handler_run_def split: sum.splits py_exc.splits)

lemma echo_computation:
  "i < 3 \<Longrightarrow>
   collect_outputs i (gpu_prompts ! i) 0 (echo_outputs (gpu_prompts ! i)) []
     = Inr (map (\<lambda>j. \<lparr>gpu_id = i, prompt = gpu_prompts ! i ! j,
                       response = strip (''echo:'' @ gpu_prompts ! i ! j)\<rparr>) [0..<2])"
proof -
  assume i: "i < 3"
  have "map (\<lambda>j. \<lparr>gpu_id = i, prompt = gpu_prompts ! i ! (0 + j),
                   response = strip (c_text (hd (outputs (echo_outputs (gpu_prompts ! i) ! j))))\<rparr>)
          [0..<length (echo_outputs (gpu_prompts ! i))]
      = map (\<lambda>j. \<lparr>gpu_id = i, prompt = gpu_prompts ! i ! j,
                       response = strip (''echo:'' @ gpu_prompts ! i ! j)\<rparr>) [0..<2]"
    using i by (intro map_cong) (simp_all add: echo_outputs_props length_gpu_prompts)
  then show ?thesis
    using i collect_outputs_ok [of 0 "echo_outputs (gpu_prompts ! i)" "gpu_prompts ! i" i "[]"]
    by (simp add: echo_outputs_props length_gpu_prompts)
qed

lemma echo_child_run:
  assumes "i < 3"
  shows "child_run (echo_pf cap) penv i =
     (Returned, [map (\<lambda>j. \<lparr>gpu_id = i, prompt = gpu_prompts ! i ! j,
                            response = strip (''echo:'' @ gpu_prompts ! i ! j)\<rparr>) [0..<2]])"
proof -
  have q: "print_raises (echo_pf cap) = (\<lambda>p line. None)"
    by (simp add: echo_pf_def)
  have "computation (echo_pf cap) (worker_env penv i) i model_name (gpu_prompts ! i)
      = collect_outputs i (gpu_prompts ! i) 0 (echo_outputs (gpu_prompts ! i)) []"
    by (simp add: echo_pf_def computation_def)
  then show ?thesis
    using assms by (simp add: quiet_child_run [OF q] echo_computation)
qed

lemma failing_child_run: "child_run (failing_pf cap) penv i = (Returned, [[]])"
proof -
  have q: "print_raises (failing_pf cap) = (\<lambda>p line. None)"
    by (simp add: failing_pf_def)
  show ?thesis
    by (simp add: quiet_child_run [OF q]) (simp add: failing_pf_def computation_def)
qed

lemma str_digits:
  "str 0 = ''0''" "str (Suc 0) = ''1''" "str (Suc (Suc 0)) = ''2''" "str 1 = ''1''" "str 2 = ''2''"
  by (simp_all add: str.simps)

lemma str_small: "i < 3 \<Longrightarrow> k < 3 \<Longrightarrow> (str i = str k) = (i = k)"
proof -
  assume "i < 3" "k < 3"
  then have "(i = 0 \<or> i = Suc 0 \<or> i = Suc (Suc 0)) \<and> (k = 0 \<or> k = Suc 0 \<or> k = Suc (Suc 0))"
    by auto
  then show ?thesis
    by (auto simp: str_digits)
qed

lemma flaky_child_run:
  assumes "i < 3" and "k < 3"
  shows "child_run (flaky_pf k cap) penv i =
     (if i = k then (Returned, [[]]) else child_run (echo_pf cap) penv i)"
proof -
  have q: "print_raises (flaky_pf k cap) = (\<lambda>p line. None)"
    by (simp add: flaky_pf_def)
  have "computation (flaky_pf k cap) (worker_env penv i) i model_name (gpu_prompts ! i)
      = (if i = k then Inl (PyException ''CUDA out of memory'')
         else collect_outputs i (gpu_prompts ! i) 0 (echo_outputs (gpu_prompts ! i)) [])"
    using assms by (simp add: flaky_pf_def computation_def worker_env_def str_small)
  then show ?thesis
    using assms by (simp add: quiet_child_run [OF q] echo_child_run echo_computation)
qed

lemma sysexit_child_run:
  assumes "i < 3" and "k < 3"
  shows "child_run (sysexit_pf k cap) penv i =
     (if i = k then (Raised (PySystemExit NoCode), []) else child_run (echo_pf cap) penv i)"
proof -
  have q: "print_raises (sysexit_pf k cap) = (\<lambda>p line. None)"
    by (simp add: sysexit_pf_def)
  have "computation (sysexit_pf k cap) (worker_env penv i) i model_name (gpu_prompts ! i)
      = (if i = k then Inl (PySystemExit NoCode)
         else collect_outputs i (gpu_prompts ! i) 0 (echo_outputs (gpu_prompts ! i)) [])"
    using assms by (simp add: sysexit_pf_def computation_def worker_env_def str_small)
  then show ?thesis
    using assms by (simp add: quiet_child_run [OF q] echo_child_run echo_computation)
qed

lemma total_bytes_3:
  "total_bytes pf penv = pipe_bytes pf (child_puts pf penv 0) + pipe_bytes pf (child_puts pf penv 1)
      + pipe_bytes pf (child_puts pf penv 2)"
  by (simp add: total_bytes_def upt_3)

lemma example_totals:
  "total_bytes (echo_pf cap) penv = 9" "total_bytes (failing_pf cap) penv = 3"
  "total_bytes (flaky_pf 1 cap) penv = 7" "total_bytes (sysexit_pf 1 cap) penv = 6"
  by (simp_all add: total_bytes_3 child_puts_def echo_child_run failing_child_run
      flaky_child_run sysexit_child_run)
    (simp_all add: echo_pf_def failing_pf_def flaky_pf_def sysexit_pf_def)










lemma flaky_computation:
  assumes "i < 3" and "k < 3"
  shows "computation (flaky_pf k cap) (worker_env penv i) i model_name (gpu_prompts ! i)
      = (if i = k then Inl (PyException ''CUDA out of memory'')
         else Inr (map (\<lambda>j. \<lparr>gpu_id = i, prompt = gpu_prompts ! i ! j,
                       response = strip (''echo:'' @ gpu_prompts ! i ! j)\<rparr>) [0..<2]))"
  using assms by (simp add: flaky_pf_def computation_def worker_env_def str_small echo_computation)

lemma length_concat_sum: "length (concat xss) = sum_list (map length xss)"
  by (induction xss) simp_all

section \<open>The claims\<close>




text \<open>
  C2, as the claim states it, fails.  The handler prints the message before it puts the
  empty list: on a standard output that breaks after the loading line, the computation
  raises an error, the print in the handler raises in turn, the worker puts nothing and
  the child exits with code 1.  And a failed worker whose empty batch does not fit into
  the pipe (here a pipe of 0 bytes) cannot exit, so the parent hangs in its join.
\<close>

theorem unreported_error_counterexample:
  "computation broken_stdout_pf (worker_env Map.empty 0) 0 ''m'' [''a'']
     = Inl (PyException ''CUDA out of memory'')
   \<and> fst (run_model_on_gpu broken_stdout_pf (Child 0) 0 ''m'' [''a''] init_world)
     = Raised (PyException ''[Errno 32] Broken pipe'')
   \<and> unflushed (snd (run_model_on_gpu broken_stdout_pf (Child 0) 0 ''m'' [''a''] init_world))
        (Child 0) = []
   \<and> status (run_child broken_stdout_pf [(0, ''m'', [''a''])] 0
               (init_world\<lparr>status := (\<lambda>i. Running)\<rparr>)) 0 = Exited 1
   \<and> hung (join (failing_pf 0) [(0, ''m'', [''a''])] 0 (init_world\<lparr>status := (\<lambda>i. Running)\<rparr>))"
proof -
  have l: "error_line 0 ''CUDA out of memory'' \<noteq> loading_line 0 ''m''"
    by (simp add: error_line_def loading_line_def str_digits)
  have a: "computation broken_stdout_pf (worker_env Map.empty 0) 0 ''m'' [''a'']
     = Inl (PyException ''CUDA out of memory'')"
    by (simp add: computation_def broken_stdout_pf_def)
  have r: "worker_run broken_stdout_pf (Child 0) (worker_env Map.empty 0) 0 ''m'' [''a'']
             = (Raised (PyException ''[Errno 32] Broken pipe''), [])"
  proof -
    have p1: "print_raises broken_stdout_pf (Child 0) (loading_line 0 ''m'') = None"
      by (simp add: broken_stdout_pf_def)
    have p2: "print_raises broken_stdout_pf (Child 0) (error_line 0 ''CUDA out of memory'')
                = Some (PyException ''[Errno 32] Broken pipe'')"
      using l by (simp add: broken_stdout_pf_def)
    show ?thesis
      by (simp add: worker_run_def handler_run_def a p1 p2)
  qed
  have f: "worker_run (failing_pf 0) (Child 0) (worker_env Map.empty 0) 0 ''m'' [''a'']
             = (Returned, [[]])"
    by (simp add: worker_run_def handler_run_def computation_def failing_pf_def)
  show ?thesis
    using a r f
    by (simp add: run_model_on_gpu_eq run_child_def join_def flush_def Let_def init_world_def)
      (simp add: failing_pf_def)
qed

text \<open>
  C2, amended.  Take a running child \<open>i\<close> with an empty buffer whose loading line is
  printed, whose computation raises an error (an \<^verbatim>\<open>Exception\<close>, from the engine
  construction, the generation or the loop) and whose error line is printed.  The worker
  catches the error, puts the empty list as its last operation and returns.  When the
  empty batch fits into the pipe and no writer is stopped on it, the batch is written,
  the child exits with code 0 and the parent's join of that child returns; otherwise the
  batch stays unwritten, the child is blocked and the parent hangs in the join.
\<close>

theorem worker_error_is_reported:
  assumes "i < length processes" and "processes ! i = (g, m, prompts)"
    and "status w i = Running" and "unflushed w (Child i) = []"
    and "print_raises pf (Child i) (loading_line g m) = None"
    and "computation pf (worker_env (os_environ w (Child i)) g) g m prompts
           = Inl (PyException msg)"
    and "print_raises pf (Child i) (error_line g msg) = None"
  shows "fst (run_model_on_gpu pf (Child i) g m prompts w) = Returned
       \<and> unflushed (snd (run_model_on_gpu pf (Child i) g m prompts w)) (Child i) = [[]]
       \<and> last (trace (snd (run_model_on_gpu pf (Child i) g m prompts w)))
           = (Child i, EvPut [])
       \<and> (\<not> wedged w \<and> pipe_bytes pf (results_queue w) + nbytes pf [] \<le> pipe_size pf \<longrightarrow>
            status (run_child pf processes i w) i = Exited 0
            \<and> results_queue (run_child pf processes i w) = results_queue w @ [[]]
            \<and> (\<not> hung w \<longrightarrow>
                 \<not> hung (join pf processes i w)
                 \<and> last (trace (join pf processes i w)) = (Parent, EvJoin i None)))
       \<and> (wedged w \<or> pipe_size pf < pipe_bytes pf (results_queue w) + nbytes pf [] \<longrightarrow>
            status (run_child pf processes i w) i = Blocked
            \<and> results_queue (run_child pf processes i w) = results_queue w
            \<and> hung (join pf processes i w))"
proof -
  let ?r = "run_model_on_gpu pf (Child i) g m prompts w"
  have wr: "worker_run pf (Child i) (worker_env (os_environ w (Child i)) g) g m prompts
              = (Returned, [[]])"
    using assms(5-7) by (simp add: worker_run_def handler_run_def)
  have out: "fst ?r = Returned" and buf: "unflushed (snd ?r) (Child i) = [[]]"
    and q: "results_queue (snd ?r) = results_queue w" and wd: "wedged (snd ?r) = wedged w"
    and hg: "hung (snd ?r) = hung w" and st: "status (snd ?r) = status w"
    using assms(4) by (simp_all add: run_model_on_gpu_eq wr)
  have t: "last (trace (snd ?r)) = (Child i, EvPut [])"
    by (simp add: run_model_on_gpu_eq worker_events_def wr assms(5) split: sum.splits)
  have rc: "run_child pf processes i w =
      (let w'' = flush pf (Child i) (snd ?r) in
       w''\<lparr>status := (status w'')
             (i := if unflushed w'' (Child i) = [] then Exited 0 else Blocked)\<rparr>)"
    using assms(1-3) out by (simp add: run_child_def case_prod_beta Let_def)
  have fits: "flush pf (Child i) (snd ?r)
        = (snd ?r)\<lparr>results_queue := results_queue w @ [[]],
                    unflushed := (unflushed (snd ?r))(Child i := [])\<rparr>"
    if "\<not> wedged w \<and> pipe_bytes pf (results_queue w) + nbytes pf [] \<le> pipe_size pf"
    using that by (simp add: flush_def buf q wd)
  have stuck: "flush pf (Child i) (snd ?r)
        = (snd ?r)\<lparr>wedged := True, unflushed := (unflushed (snd ?r))(Child i := [[]])\<rparr>"
    if "wedged w \<or> pipe_size pf < pipe_bytes pf (results_queue w) + nbytes pf []"
    using that by (auto simp: flush_def buf q wd)
  show ?thesis
    using out buf t
    by (auto simp: rc fits stuck Let_def join_def record_event_def hg q)
qed

theorem worker_error_is_reported_witness:
  "status (join (failing_pf 9) [(0, ''m'', [''a'']), (1, ''m'', [''b''])] 1
             (init_world\<lparr>status := (\<lambda>i. Running)\<rparr>)) 1 = Exited 0
   \<and> results_queue (run_child (failing_pf 9) [(0, ''m'', [''a'']), (1, ''m'', [''b''])] 1
             (init_world\<lparr>status := (\<lambda>i. Running)\<rparr>)) = [[]]
   \<and> status (run_child (failing_pf 0) [(0, ''m'', [''a'']), (1, ''m'', [''b''])] 1
             (init_world\<lparr>status := (\<lambda>i. Running)\<rparr>)) 1 = Blocked"
  using worker_error_is_reported [of 1 "[(0, ''m'', [''a'']), (1, ''m'', [''b''])]" 1 "''m''"
      "[''b'']" "init_world\<lparr>status := (\<lambda>i. Running)\<rparr>" "failing_pf 9" "''CUDA out of memory''"]
    worker_error_is_reported [of 1 "[(0, ''m'', [''a'']), (1, ''m'', [''b''])]" 1 "''m''"
      "[''b'']" "init_world\<lparr>status := (\<lambda>i. Running)\<rparr>" "failing_pf 0" "''CUDA out of memory''"]
  by (simp add: computation_def failing_pf_def init_world_def join_status)

text \<open>
  C3.  The assembly step, on any batches that workers with distinct GPU ids put (batch
  \<open>i\<close> holds entries of GPU \<open>i\<close>, in the order of their prompts) and in any order of
  arrival in the queue: draining and sorting by \<^verbatim>\<open>gpu_id\<close> gives the batches in the
  order of the GPU ids, each batch in its own order (the sort is stable), so the entries
  are ordered by GPU id and, within a GPU, by the index of the prompt.  Accordingly the
  result of the harness, when it returns one (the batches fit into the pipe), is under
  every schedule the entries of child 0, then those of child 1, then those of child 2.
\<close>

theorem assembly_sorted_by_gpu_then_index:
  assumes "distinct order" and "set order = {0..<length bs}"
    and "\<forall>i<length bs. \<forall>r\<in>set (bs ! i). gpu_id r = i"
    and "results_queue w = map ((!) bs) order"
  shows "sort_key gpu_id (fst (drain_loop [] w)) = concat bs
       \<and> sorted (map gpu_id (sort_key gpu_id (fst (drain_loop [] w))))
       \<and> (\<forall>g<length bs.
            filter (\<lambda>r. gpu_id r = g) (sort_key gpu_id (fst (drain_loop [] w))) = bs ! g)
       \<and> map_option fst (test_multi_gpu pf sched w0)
           = (if total_bytes pf (os_environ w0 Parent) \<le> pipe_size pf
              then Some (concat (map (child_entries pf (os_environ w0 Parent)) [0..<3]))
              else None)"
proof -
  have drained: "fst (drain_loop [] w) = concat (map ((!) bs) order)"
    using assms(4) by (simp add: drain_loop_eq [OF refl])
  have "sort_key gpu_id (concat (map ((!) bs) order)) = concat (map ((!) bs) [0..<length bs])"
    using assms(1-3) by (rule sort_key_tagged)
  then have eq: "sort_key gpu_id (fst (drain_loop [] w)) = concat bs"
    by (simp add: drained map_nth)
  have tagged: "\<forall>i\<in>set [0..<length bs]. \<forall>r\<in>set (bs ! i). gpu_id r = i"
    using assms(3) by simp
  have "filter (\<lambda>r. gpu_id r = g) (concat (map ((!) bs) [0..<length bs])) = bs ! g"
    if "g < length bs" for g
    using filter_concat_tagged [OF distinct_upt tagged, of g] that by simp
  then have groups: "\<forall>g<length bs. filter (\<lambda>r. gpu_id r = g) (concat bs) = bs ! g"
    by (simp add: map_nth)
  show ?thesis
    using eq groups sorted_sort_key [of gpu_id "fst (drain_loop [] w)"]
    by (simp add: test_multi_gpu_result)
qed

theorem assembly_sorted_by_gpu_then_index_witness:
  "sort_key gpu_id
     (fst (drain_loop []
        (init_world\<lparr>results_queue :=
           [[\<lparr>gpu_id = 2, prompt = ''e'', response = ''E''\<rparr>,
             \<lparr>gpu_id = 2, prompt = ''f'', response = ''F''\<rparr>],
            [\<lparr>gpu_id = 1, prompt = ''c'', response = ''C''\<rparr>,
             \<lparr>gpu_id = 1, prompt = ''d'', response = ''D''\<rparr>],
            [\<lparr>gpu_id = 0, prompt = ''a'', response = ''A''\<rparr>,
             \<lparr>gpu_id = 0, prompt = ''b'', response = ''B''\<rparr>]]\<rparr>)))
   = [\<lparr>gpu_id = 0, prompt = ''a'', response = ''A''\<rparr>,
      \<lparr>gpu_id = 0, prompt = ''b'', response = ''B''\<rparr>,
      \<lparr>gpu_id = 1, prompt = ''c'', response = ''C''\<rparr>,
      \<lparr>gpu_id = 1, prompt = ''d'', response = ''D''\<rparr>,
      \<lparr>gpu_id = 2, prompt = ''e'', response = ''E''\<rparr>,
      \<lparr>gpu_id = 2, prompt = ''f'', response = ''F''\<rparr>]"
proof -
  let ?bs = "[[\<lparr>gpu_id = 0, prompt = ''a'', response = ''A''\<rparr>,
               \<lparr>gpu_id = 0, prompt = ''b'', response = ''B''\<rparr>],
              [\<lparr>gpu_id = 1, prompt = ''c'', response = ''C''\<rparr>,
               \<lparr>gpu_id = 1, prompt = ''d'', response = ''D''\<rparr>],
              [\<lparr>gpu_id = 2, prompt = ''e'', response = ''E''\<rparr>,
               \<lparr>gpu_id = 2, prompt = ''f'', response = ''F''\<rparr>]]"
  have a: "distinct [2, 1, 0::nat]" by simp
  have b: "set [2, 1, 0::nat] = {0..<length ?bs}" by auto
  have c: "\<forall>i<length ?bs. \<forall>r\<in>set (?bs ! i). gpu_id r = i"
    by (simp add: less_Suc_eq numeral_3_eq_3)
  show ?thesis
    using assembly_sorted_by_gpu_then_index [OF a b c, of
        "init_world\<lparr>results_queue := map ((!) ?bs) [2, 1, 0]\<rparr>" "echo_pf 9" "[]" init_world]
    by simp
qed







text \<open>
  C6.  When the parent does not hang in a join, its operations up to the end of the join
  loop are the three starts and then the three joins, each without a timeout; at that
  point every child has exited.  Only then is the queue read: the trace continues with
  one emptiness check and one \<^verbatim>\<open>get\<close> per batch, until the check finds the queue
  empty.  Every batch that was in the queue is in the merged list, and the queue is empty
  at the end.  When the parent hangs in a join, it has performed the three starts and
  fewer than three joins, and it reads nothing.
\<close>

theorem join_all_then_drain:
  "(\<not> hung (joined pf sched w) \<longrightarrow>
      events_of Parent (trace (joined pf sched w))
        = events_of Parent (trace w) @ map EvStart [0..<3] @ map (\<lambda>i. EvJoin i None) [0..<3]
      \<and> map (status (joined pf sched w)) [0..<3]
        = map (\<lambda>i. Exited (exitcode (child_outcome pf (os_environ w Parent) i))) [0..<3]
      \<and> test_multi_gpu pf sched w
        = Some (sort_key gpu_id (concat (results_queue (joined pf sched w))),
                (joined pf sched w)
                  \<lparr>results_queue := [],
                   trace := trace (joined pf sched w) @
                     map (Pair Parent)
                       (concat (map (\<lambda>b. [EvEmpty False, EvGet])
                                  (results_queue (joined pf sched w)))
                        @ [EvEmpty True])\<rparr>)
      \<and> fst (drain_loop [] (joined pf sched w)) = concat (results_queue (joined pf sched w)))
   \<and> (hung (joined pf sched w) \<longrightarrow>
        test_multi_gpu pf sched w = None
        \<and> (\<exists>k<3. events_of Parent (trace (joined pf sched w))
                    = events_of Parent (trace w) @ map EvStart [0..<3]
                      @ map (\<lambda>i. EvJoin i None) [0..<k]))"
proof -
  have st: "map (status (joined pf sched w)) [0..<3]
     = map (\<lambda>i. Exited (exitcode (child_outcome pf (os_environ w Parent) i))) [0..<3]"
    if "\<not> hung (joined pf sched w)"
    using joined_all_written [OF that] by (intro map_cong) auto
  from joined_parent_events [of pf sched w] obtain k where
    k: "k \<le> 3"
      "events_of Parent (trace (joined pf sched w))
        = events_of Parent (trace w) @ map EvStart [0..<3] @ map (\<lambda>i. EvJoin i None) [0..<k]"
      "hung (joined pf sched w) \<longrightarrow> k < 3" "\<not> hung (joined pf sched w) \<longrightarrow> k = 3"
    by blast
  show ?thesis
    using st k by (auto simp: test_multi_gpu_unfold drain_loop_eq [OF refl])
qed

theorem join_all_then_drain_witness:
  "events_of Parent (trace (joined (echo_pf 9) [2, 1, 0] init_world))
     = [EvStart 0, EvStart 1, EvStart 2, EvJoin 0 None, EvJoin 1 None, EvJoin 2 None]
   \<and> test_multi_gpu (echo_pf 8) [2, 1, 0] init_world = None"
proof -
  have a: "\<not> hung (joined (echo_pf 9) [2, 1, 0] init_world)"
    by (simp add: hung_iff example_totals) (simp add: echo_pf_def)
  have b: "hung (joined (echo_pf 8) [2, 1, 0] init_world)"
    by (simp add: hung_iff example_totals) (simp add: echo_pf_def)
  show ?thesis
    using join_all_then_drain [of "echo_pf 9" "[2, 1, 0]" init_world]
      join_all_then_drain [of "echo_pf 8" "[2, 1, 0]" init_world] a b
    by (simp add: upt_3 init_world_def)
qed

text \<open>
  C7.  The operations of a worker, in order: it sets \<^verbatim>\<open>CUDA_VISIBLE_DEVICES\<close> to
  its own GPU id first; then, unless the print of the loading line raises, it constructs
  the engine, then (when there is an engine) generates, then puts.  The variable is set
  exactly once, before the engine construction and the generation, and it still holds
  the worker's id when the worker ends.
\<close>

theorem visibility_set_first_and_once:
  "trace (snd (run_model_on_gpu pf p g m prompts w)) =
     trace w @ map (Pair p)
       (EvSetEnv ''CUDA_VISIBLE_DEVICES'' (str g) #
        (case print_raises pf p (loading_line g m) of
           Some e \<Rightarrow> []
         | None \<Rightarrow>
             EvLLM #
             (case LLM pf (worker_env (os_environ w p) g) (llm_kwargs m) of
                Inl e \<Rightarrow> [] | Inr llm \<Rightarrow> [EvGenerate]) @
             map EvPut (snd (worker_run pf p (worker_env (os_environ w p) g) g m prompts))))
   \<and> filter is_setenv
       (map snd (drop (length (trace w)) (trace (snd (run_model_on_gpu pf p g m prompts w)))))
       = [EvSetEnv ''CUDA_VISIBLE_DEVICES'' (str g)]
   \<and> os_environ (snd (run_model_on_gpu pf p g m prompts w)) p ''CUDA_VISIBLE_DEVICES''
       = Some (str g)"
proof -
  have put_none: "filter is_setenv (map EvPut bs) = []" for bs
    by (induction bs) simp_all
  show ?thesis
    by (simp add: run_model_on_gpu_eq worker_events_def worker_env_def put_none comp_def
        split: sum.splits option.splits)
qed

text \<open>
  C8.  Every process has its own \<^verbatim>\<open>os.environ\<close>, a child's being a copy made when
  it starts.  The assignment to \<^verbatim>\<open>CUDA_VISIBLE_DEVICES\<close> by process \<open>p\<close> changes
  the environment of no other process, and neither the statuses nor the queue nor the
  buffers; a whole worker run changes no other process's environment and, in its own,
  only that variable.  After the join loop of the harness (also when the parent hangs in
  it) and after a run of the harness that returns, the parent's environment is what it
  was, and child \<open>i\<close> has the parent's environment with the variable set to its own id.
\<close>

theorem visibility_mutation_is_process_local:
  "(\<forall>q. q \<noteq> p \<longrightarrow> os_environ (setenv p k v w) q = os_environ w q)
   \<and> status (setenv p k v w) = status w
   \<and> results_queue (setenv p k v w) = results_queue w
   \<and> unflushed (setenv p k v w) = unflushed w
   \<and> (\<forall>q. q \<noteq> p \<longrightarrow>
         os_environ (snd (run_model_on_gpu pf p g m prompts w)) q = os_environ w q)
   \<and> (\<forall>k'. k' \<noteq> ''CUDA_VISIBLE_DEVICES'' \<longrightarrow>
         os_environ (snd (run_model_on_gpu pf p g m prompts w)) p k' = os_environ w p k')
   \<and> os_environ (joined pf sched w) Parent = os_environ w Parent
   \<and> (\<forall>i<3. os_environ (joined pf sched w) (Child i) = worker_env (os_environ w Parent) i)
   \<and> (\<forall>res w'. test_multi_gpu pf sched w = Some (res, w') \<longrightarrow>
         os_environ w' Parent = os_environ w Parent
         \<and> (\<forall>i<3. os_environ w' (Child i) = worker_env (os_environ w Parent) i))"
  by (auto simp: setenv_def record_event_def run_model_on_gpu_eq worker_env_def
      test_multi_gpu_unfold joined_os_environ split: if_splits)

theorem visibility_mutation_is_process_local_witness:
  "os_environ (snd (run_model_on_gpu (echo_pf 9) (Child 1) 1 ''m'' [''a'']
       (init_world\<lparr>os_environ := (\<lambda>p. [''PATH'' \<mapsto> ''/usr/bin''])\<rparr>))) Parent
     = [''PATH'' \<mapsto> ''/usr/bin'']
   \<and> os_environ (snd (run_model_on_gpu (echo_pf 9) (Child 1) 1 ''m'' [''a'']
       (init_world\<lparr>os_environ := (\<lambda>p. [''PATH'' \<mapsto> ''/usr/bin''])\<rparr>))) (Child 0)
     = [''PATH'' \<mapsto> ''/usr/bin'']
   \<and> os_environ (snd (run_model_on_gpu (echo_pf 9) (Child 1) 1 ''m'' [''a'']
       (init_world\<lparr>os_environ := (\<lambda>p. [''PATH'' \<mapsto> ''/usr/bin''])\<rparr>))) (Child 1) ''PATH''
     = Some ''/usr/bin''
   \<and> os_environ (joined (echo_pf 9) [2, 0, 1]
       (init_world\<lparr>os_environ := (\<lambda>p. [''PATH'' \<mapsto> ''/usr/bin''])\<rparr>)) (Child 2)
     = [''PATH'' \<mapsto> ''/usr/bin'', ''CUDA_VISIBLE_DEVICES'' \<mapsto> ''2'']
   \<and> os_environ (joined (echo_pf 0) [2, 0, 1]
       (init_world\<lparr>os_environ := (\<lambda>p. [''PATH'' \<mapsto> ''/usr/bin''])\<rparr>)) Parent
     = [''PATH'' \<mapsto> ''/usr/bin'']"
  using visibility_mutation_is_process_local [of "Child 1" "''CUDA_VISIBLE_DEVICES''" "''1''"
      "init_world\<lparr>os_environ := (\<lambda>p. [''PATH'' \<mapsto> ''/usr/bin''])\<rparr>" "echo_pf 9" 1 "''m''"
      "[''a'']" "[2, 0, 1]"]
    visibility_mutation_is_process_local [of "Child 1" "''CUDA_VISIBLE_DEVICES''" "''1''"
      "init_world\<lparr>os_environ := (\<lambda>p. [''PATH'' \<mapsto> ''/usr/bin''])\<rparr>" "echo_pf 0" 1 "''m''"
      "[''a'']" "[2, 0, 1]"]
  by (simp add: init_world_def worker_env_def str_digits)

text \<open>
  C9.  A worker leaves the batches already written to the queue and the ones already in
  its buffer as they are and appends only batches whose entries carry its own GPU id;
  a child that ends only appends to what is written.  Every entry written to the queue
  during a run of the harness with GPU id \<open>g\<close> is among the ones child \<open>g\<close>
  created, and a harness that returns, returns the entries that are in the queue after
  the joins, each once and unchanged.
\<close>

theorem results_owned_and_unmodified:
  "results_queue (snd (run_model_on_gpu pf p g m prompts w)) = results_queue w
   \<and> take (length (unflushed w p)) (unflushed (snd (run_model_on_gpu pf p g m prompts w)) p)
       = unflushed w p
   \<and> (\<forall>b\<in>set (drop (length (unflushed w p))
                   (unflushed (snd (run_model_on_gpu pf p g m prompts w)) p)).
         \<forall>r\<in>set b. gpu_id r = g)
   \<and> take (length (results_queue w)) (results_queue (run_child pf processes i w))
       = results_queue w
   \<and> (\<forall>r\<in>set (concat (results_queue (joined pf sched w))).
         gpu_id r < 3 \<and> r \<in> set (child_entries pf (os_environ w Parent) (gpu_id r)))
   \<and> (\<forall>res w'. test_multi_gpu pf sched w = Some (res, w') \<longrightarrow>
         mset res = mset (concat (results_queue (joined pf sched w)))
         \<and> (\<forall>r\<in>set res.
               gpu_id r < 3 \<and> r \<in> set (child_entries pf (os_environ w Parent) (gpu_id r))))"
proof -
  have own: "\<forall>b\<in>set (snd (worker_run pf p (worker_env (os_environ w p) g) g m prompts)).
               \<forall>r\<in>set b. gpu_id r = g"
    using worker_run_gpu_id by blast
  obtain wr where wr: "results_queue (run_child pf processes i w) = results_queue w @ wr"
    using run_child_results_queue by blast
  have q: "\<forall>r\<in>set (concat (results_queue (joined pf sched w))).
         gpu_id r < 3 \<and> r \<in> set (child_entries pf (os_environ w Parent) (gpu_id r))"
    using joined_queue_entries by blast
  have h: "mset res = mset (concat (results_queue (joined pf sched w)))
         \<and> (\<forall>r\<in>set res.
               gpu_id r < 3 \<and> r \<in> set (child_entries pf (os_environ w Parent) (gpu_id r)))"
    if "test_multi_gpu pf sched w = Some (res, w')" for res w'
  proof -
    have r: "res = sort_key gpu_id (concat (results_queue (joined pf sched w)))"
      using that by (simp add: test_multi_gpu_unfold split: if_splits)
    then have "set res = set (concat (results_queue (joined pf sched w)))"
      by (simp only: set_sort)
    then show ?thesis
      using q by (simp add: r)
  qed
  show ?thesis
    using own q h by (simp add: run_model_on_gpu_eq wr)
qed

theorem results_owned_and_unmodified_witness:
  "unflushed (snd (run_model_on_gpu (echo_pf 9) (Child 1) 1 ''m'' [''a'']
      (init_world\<lparr>unflushed := (\<lambda>p. [[\<lparr>gpu_id = 1, prompt = ''x'', response = ''y''\<rparr>]])\<rparr>)))
      (Child 1)
     = [[\<lparr>gpu_id = 1, prompt = ''x'', response = ''y''\<rparr>],
        [\<lparr>gpu_id = 1, prompt = ''a'', response = ''echo:a''\<rparr>]]
   \<and> list_all (\<lambda>b. list_all (\<lambda>r. gpu_id r = 1) b)
       (drop 1 (unflushed (snd (run_model_on_gpu (echo_pf 9) (Child 1) 1 ''m'' [''a'']
          (init_world\<lparr>unflushed := (\<lambda>p. [[\<lparr>gpu_id = 1, prompt = ''x'', response = ''y''\<rparr>]])\<rparr>)))
          (Child 1)))
   \<and> map_option (\<lambda>x. length (fst x)) (test_multi_gpu (echo_pf 9) [1, 2, 0] init_world) = Some 6"
proof -
  let ?w = "init_world\<lparr>unflushed := (\<lambda>p. [[\<lparr>gpu_id = 1, prompt = ''x'', response = ''y''\<rparr>]])\<rparr>"
  have q: "unflushed (snd (run_model_on_gpu (echo_pf 9) (Child 1) 1 ''m'' [''a''] ?w)) (Child 1)
       = [[\<lparr>gpu_id = 1, prompt = ''x'', response = ''y''\<rparr>],
          [\<lparr>gpu_id = 1, prompt = ''a'', response = ''echo:a''\<rparr>]]"
    by (simp add: run_model_on_gpu_eq worker_run_def computation_def echo_pf_def
        echo_outputs_def strip_def isspace_def whitespace_def init_world_def)
  have "map_option fst (test_multi_gpu (echo_pf 9) [1, 2, 0] init_world)
          = Some (concat (map (child_entries (echo_pf 9) (os_environ init_world Parent)) [0..<3]))"
    by (simp add: test_multi_gpu_result example_totals) (simp add: echo_pf_def)
  then have l: "map_option (\<lambda>x. length (fst x)) (test_multi_gpu (echo_pf 9) [1, 2, 0] init_world)
          = Some 6"
    by (auto simp: upt_3 child_entries_def child_puts_def echo_child_run)
  show ?thesis
    using results_owned_and_unmodified [of "echo_pf 9" "Child 1" 1 "''m''" "[''a'']" ?w
        "[]" 0 "[1, 2, 0]"] q l
    by (simp add: list_all_iff init_world_def)
qed

text \<open>
  C10, as the claim states it, fails: a worker whose engine construction ends in
  \<^verbatim>\<open>sys.exit()\<close> puts nothing, since \<^verbatim>\<open>SystemExit\<close> passes through
  \<^verbatim>\<open>except Exception\<close>, and its child exits with code 0.  With such a worker on
  GPU 1, all three children have exited with code 0 after the joins and the queue holds
  two batches.
\<close>

theorem missing_batch_counterexample:
  "\<not> hung (joined (sysexit_pf 1 65536) [0, 1, 2] init_world)
   \<and> status (joined (sysexit_pf 1 65536) [0, 1, 2] init_world) 0 = Exited 0
   \<and> status (joined (sysexit_pf 1 65536) [0, 1, 2] init_world) 1 = Exited 0
   \<and> status (joined (sysexit_pf 1 65536) [0, 1, 2] init_world) 2 = Exited 0
   \<and> length (results_queue (joined (sysexit_pf 1 65536) [0, 1, 2] init_world)) = 2"
proof -
  let ?pf = "sysexit_pf 1 65536" and ?w = "joined (sysexit_pf 1 65536) [0, 1, 2] init_world"
  have nh: "\<not> hung ?w"
    by (simp only: hung_iff example_totals) (simp add: sysexit_pf_def)
  from joined_all_written [OF nh] obtain ds where
    ds: "distinct ds" "set ds = {0..<3}"
      "results_queue ?w = concat (map (child_puts ?pf (os_environ init_world Parent)) ds)"
      "\<forall>i<3. status ?w i = Exited (exitcode (child_outcome ?pf (os_environ init_world Parent) i))"
    by blast
  have "length (results_queue ?w)
      = sum_list (map (\<lambda>i. length (child_puts ?pf (os_environ init_world Parent) i)) ds)"
    unfolding ds(3) by (simp add: length_concat_sum comp_def)
  also have "\<dots> = sum_list (map (\<lambda>i. length (child_puts ?pf (os_environ init_world Parent) i))
                      [0..<3])"
    using ds(1,2) by (rule sum_list_perm_upt)
  also have "\<dots> = 2"
    by (simp add: upt_3 child_puts_def sysexit_child_run echo_child_run)
  finally have len: "length (results_queue ?w) = 2" .
  have "status ?w 0 = Exited 0" "status ?w 1 = Exited 0" "status ?w 2 = Exited 0"
    using ds(4) by (simp_all add: child_outcome_def sysexit_child_run echo_child_run)
  then show ?thesis
    using nh len by simp
qed

text \<open>
  C10, amended.  Let the three lines of every worker be printed without an exception,
  and let every worker's computation return or raise an \<^verbatim>\<open>Exception\<close>.  Then a
  worker run returns and puts exactly one batch, on the success path (the results) and
  on the error path (the empty list).  If the three batches fit together into the pipe,
  all three children exit with code 0 and after the joins the queue holds exactly three
  batches, one per child, in some order of arrival; if they do not fit, the parent hangs
  in a join.
\<close>

theorem one_put_per_worker:
  assumes "\<forall>i<3. print_raises pf (Child i) (loading_line i model_name) = None
             \<and> print_raises pf (Child i) (completed_line i) = None
             \<and> (\<forall>msg. print_raises pf (Child i) (error_line i msg) = None)
             \<and> (\<forall>c. computation pf (worker_env (os_environ w Parent) i) i model_name
                       (gpu_prompts ! i) \<noteq> Inl (PySystemExit c))
             \<and> (\<forall>s. computation pf (worker_env (os_environ w Parent) i) i model_name
                       (gpu_prompts ! i) \<noteq> Inl (PyBaseOnly s))"
  shows "(\<forall>i<3. \<forall>w0. os_environ w0 (Child i) = os_environ w Parent \<longrightarrow>
            fst (run_model_on_gpu pf (Child i) i model_name (gpu_prompts ! i) w0) = Returned
            \<and> unflushed (snd (run_model_on_gpu pf (Child i) i model_name (gpu_prompts ! i) w0))
                 (Child i)
               = unflushed w0 (Child i) @ [child_entries pf (os_environ w Parent) i]
            \<and> filter is_put (events_of (Child i)
                 (trace (snd (run_model_on_gpu pf (Child i) i model_name (gpu_prompts ! i) w0))))
               = filter is_put (events_of (Child i) (trace w0))
                   @ [EvPut (child_entries pf (os_environ w Parent) i)])
       \<and> (total_bytes pf (os_environ w Parent) \<le> pipe_size pf \<longrightarrow>
            \<not> hung (joined pf sched w)
            \<and> (\<forall>i<3. status (joined pf sched w) i = Exited 0)
            \<and> length (results_queue (joined pf sched w)) = 3
            \<and> (\<exists>ds. distinct ds \<and> set ds = {0..<3}
                  \<and> results_queue (joined pf sched w)
                      = map (child_entries pf (os_environ w Parent)) ds))
       \<and> (pipe_size pf < total_bytes pf (os_environ w Parent) \<longrightarrow> hung (joined pf sched w))"
proof -
  let ?penv = "os_environ w Parent"
  have run: "child_run pf ?penv i = (Returned, [child_entries pf ?penv i])" if "i < 3" for i
  proof -
    have "worker_run pf (Child i) (worker_env ?penv i) i model_name (gpu_prompts ! i)
        = (Returned, [case computation pf (worker_env ?penv i) i model_name (gpu_prompts ! i) of
                        Inr rs \<Rightarrow> rs | Inl e \<Rightarrow> []])"
      using assms that
      by (auto simp: worker_run_def handler_run_def split: sum.splits py_exc.splits)
    then show ?thesis
      by (simp add: child_run_def child_entries_def child_puts_def)
  qed
  have worker: "fst (run_model_on_gpu pf (Child i) i model_name (gpu_prompts ! i) w0) = Returned
            \<and> unflushed (snd (run_model_on_gpu pf (Child i) i model_name (gpu_prompts ! i) w0))
                 (Child i)
               = unflushed w0 (Child i) @ [child_entries pf ?penv i]
            \<and> filter is_put (events_of (Child i)
                 (trace (snd (run_model_on_gpu pf (Child i) i model_name (gpu_prompts ! i) w0))))
               = filter is_put (events_of (Child i) (trace w0))
                   @ [EvPut (child_entries pf ?penv i)]"
    if "i < 3" and "os_environ w0 (Child i) = ?penv" for i w0
  proof -
    have wr: "worker_run pf (Child i) (worker_env (os_environ w0 (Child i)) i) i model_name
                (gpu_prompts ! i) = (Returned, [child_entries pf ?penv i])"
      using run [OF that(1)] that(2) by (simp add: child_run_def)
    have ev: "filter is_put (worker_events pf (Child i) (worker_env (os_environ w0 (Child i)) i) i
                model_name (gpu_prompts ! i)) = [EvPut (child_entries pf ?penv i)]"
      using assms that(1) by (simp add: worker_events_def wr split: sum.splits)
    show ?thesis
      by (simp add: run_model_on_gpu_eq wr ev events_of_same)
  qed
  have fits: "\<not> hung (joined pf sched w)
            \<and> (\<forall>i<3. status (joined pf sched w) i = Exited 0)
            \<and> length (results_queue (joined pf sched w)) = 3
            \<and> (\<exists>ds. distinct ds \<and> set ds = {0..<3}
                  \<and> results_queue (joined pf sched w) = map (child_entries pf ?penv) ds)"
    if "total_bytes pf ?penv \<le> pipe_size pf"
  proof -
    have nh: "\<not> hung (joined pf sched w)"
      using that by (rule fits_not_hung)
    from joined_all_written [OF nh] obtain ds where
      ds: "distinct ds" "set ds = {0..<3}"
        "results_queue (joined pf sched w) = concat (map (child_puts pf ?penv) ds)"
        "\<forall>i<3. status (joined pf sched w) i = Exited (exitcode (child_outcome pf ?penv i))"
      by blast
    have "map (child_puts pf ?penv) ds = map (\<lambda>i. [child_entries pf ?penv i]) ds"
      using ds(2) by (intro map_cong) (auto simp: child_puts_def run)
    then have q: "results_queue (joined pf sched w) = map (child_entries pf ?penv) ds"
      by (simp add: ds(3)) (induction ds, simp_all)
    have "length ds = 3"
      using ds(1,2) distinct_card [of ds] by simp
    then have "length (results_queue (joined pf sched w)) = 3"
      by (simp add: q)
    moreover have "\<forall>i<3. status (joined pf sched w) i = Exited 0"
      using ds(4) by (simp add: child_outcome_def run)
    ultimately show ?thesis
      using nh q ds(1,2) by blast
  qed
  have over: "hung (joined pf sched w)" if "pipe_size pf < total_bytes pf ?penv"
    using that by (simp add: hung_iff)
  show ?thesis
    using worker fits over by blast
qed

theorem one_put_per_worker_witness:
  "length (results_queue (joined (flaky_pf 1 9) [2, 0, 1] init_world)) = 3
   \<and> status (joined (flaky_pf 1 9) [2, 0, 1] init_world) 1 = Exited 0
   \<and> unflushed (snd (run_model_on_gpu (flaky_pf 1 9) (Child 1) 1 model_name (gpu_prompts ! 1)
        init_world)) (Child 1) = [[]]
   \<and> hung (joined (flaky_pf 1 6) [2, 0, 1] init_world)"
proof -
  have h: "\<forall>i<3. print_raises (flaky_pf 1 cap) (Child i) (loading_line i model_name) = None
             \<and> print_raises (flaky_pf 1 cap) (Child i) (completed_line i) = None
             \<and> (\<forall>msg. print_raises (flaky_pf 1 cap) (Child i) (error_line i msg) = None)
             \<and> (\<forall>c. computation (flaky_pf 1 cap) (worker_env (os_environ init_world Parent) i) i
                       model_name (gpu_prompts ! i) \<noteq> Inl (PySystemExit c))
             \<and> (\<forall>s. computation (flaky_pf 1 cap) (worker_env (os_environ init_world Parent) i) i
                       model_name (gpu_prompts ! i) \<noteq> Inl (PyBaseOnly s))" for cap
    by (simp add: flaky_computation) (simp add: flaky_pf_def)
  have t: "total_bytes (flaky_pf 1 9) (os_environ init_world Parent) \<le> pipe_size (flaky_pf 1 9)"
    "pipe_size (flaky_pf 1 6) < total_bytes (flaky_pf 1 6) (os_environ init_world Parent)"
    by (simp_all only: example_totals) (simp_all add: flaky_pf_def)
  have e: "child_entries (flaky_pf 1 9) (os_environ init_world Parent) 1 = []"
    by (simp add: child_entries_def child_puts_def flaky_child_run)
  have u: "unflushed init_world (Child 1) = []"
    "os_environ init_world (Child 1) = os_environ init_world Parent"
    by (simp_all add: init_world_def)
  show ?thesis
    using one_put_per_worker [OF h, of 9 "[2, 0, 1]"] one_put_per_worker [OF h, of 6 "[2, 0, 1]"]
      t e u
    by simp
qed

end
